theory Spec2Isabelle
  imports Main "HOL-Library.Multiset"
begin

section \<open>Strings\<close>

text \<open>
  Go strings are byte sequences; they are modelled as \<open>string\<close> (a list of 8-bit
  characters). The functions of package \<open>strings\<close> used by \<open>main.go\<close> are
  written out on lists.
\<close>

text \<open>\<open>strings.HasPrefix(s, prefix)\<close>.\<close>

fun hasPrefix :: "string \<Rightarrow> string \<Rightarrow> bool" where
  "hasPrefix s [] = True"
| "hasPrefix [] (p # ps) = False"
| "hasPrefix (c # cs) (p # ps) = (c = p \<and> hasPrefix cs ps)"

text \<open>\<open>strings.Contains(s, substr)\<close>: some suffix of \<open>s\<close> starts with \<open>substr\<close>.\<close>

fun contains :: "string \<Rightarrow> string \<Rightarrow> bool" where
  "contains [] sub = (sub = [])"
| "contains (c # cs) sub = (hasPrefix (c # cs) sub \<or> contains cs sub)"

text \<open>
  \<open>strings.Split(s, sep)\<close> for a separator of one byte: the pieces between the
  separators, always at least one piece. \<open>splitFrom\<close> carries the piece being read.
\<close>

fun splitFrom :: "char \<Rightarrow> string \<Rightarrow> string \<Rightarrow> string list" where
  "splitFrom sep cur [] = [cur]"
| "splitFrom sep cur (c # cs) =
     (if c = sep then cur # splitFrom sep [] cs else splitFrom sep (cur @ [c]) cs)"

definition split :: "string \<Rightarrow> char \<Rightarrow> string list" where
  "split s sep = splitFrom sep [] s"

text \<open>\<open>strings.Join(elems, sep)\<close> for a separator of one byte.\<close>

fun joinWith :: "char \<Rightarrow> string list \<Rightarrow> string" where
  "joinWith sep [] = []"
| "joinWith sep [e] = e"
| "joinWith sep (e # f # es) = e @ sep # joinWith sep (f # es)"

text \<open>
  \<open>strings.ToLower\<close> on the ASCII letters; every other byte is kept. (The extensions
  compared against are \<open>.md\<close> and \<open>.json\<close>, and no character outside ASCII has one
  of their letters as its lower case.)
\<close>

definition toLowerChar :: "char \<Rightarrow> char" where
  "toLowerChar c =
     (let n = (of_char c :: nat) in if 65 \<le> n \<and> n \<le> 90 then char_of (n + 32) else c)"

definition toLower :: "string \<Rightarrow> string" where
  "toLower s = map toLowerChar s"

text \<open>
  The comparison \<open><\<close> of Go strings: lexicographic on the bytes, a proper prefix
  before its extensions.
\<close>

fun strLess :: "string \<Rightarrow> string \<Rightarrow> bool" where
  "strLess [] [] = False"
| "strLess [] (d # ds) = True"
| "strLess (c # cs) [] = False"
| "strLess (c # cs) (d # ds) =
     ((of_char c :: nat) < of_char d \<or> (c = d \<and> strLess cs ds))"

definition isDigit :: "char \<Rightarrow> bool" where
  "isDigit c = (let n = (of_char c :: nat) in 48 \<le> n \<and> n \<le> 57)"

text \<open>The number a string of decimal digits denotes.\<close>

fun decimalFrom :: "nat \<Rightarrow> string \<Rightarrow> nat" where
  "decimalFrom acc [] = acc"
| "decimalFrom acc (c # cs) = decimalFrom (10 * acc + (of_char c - 48)) cs"

definition decimal :: "string \<Rightarrow> nat" where
  "decimal s = decimalFrom 0 s"

section \<open>Failures and their HTTP status\<close>

text \<open>
  Every \<open>http.Error\<close> call of \<open>main.go\<close> is one constructor; \<open>status\<close> gives the
  status code of the call. The strings and numbers are the arguments formatted into the
  message.
\<close>

datatype http_status = BadRequest | NotFound | InternalServerError

datatype failure =
    GetwdFailed
  | DirectoryNotFound string
  | NotADirectory string
  | ReadDirFailed
  | StatFailed
  | MissingFileOrPath
  | FileNotFound string
  | InvalidFilePath
  | CannotDisplayDirectory
  | CannotQueryDirectory
  | UnsupportedFileType string
  | FileIsNotJSON
  | ReadFileFailed
  | InvalidJSON
  | NotAnObject string
  | NotAnArray
  | IndexOutOfBounds int
  | ComplexArrayPath

fun status :: "failure \<Rightarrow> http_status" where
  "status GetwdFailed = InternalServerError"
| "status (DirectoryNotFound d) = NotFound"
| "status (NotADirectory d) = BadRequest"
| "status ReadDirFailed = InternalServerError"
| "status StatFailed = InternalServerError"
| "status MissingFileOrPath = BadRequest"
| "status (FileNotFound f) = NotFound"
| "status InvalidFilePath = BadRequest"
| "status CannotDisplayDirectory = BadRequest"
| "status CannotQueryDirectory = BadRequest"
| "status (UnsupportedFileType e) = BadRequest"
| "status FileIsNotJSON = BadRequest"
| "status ReadFileFailed = InternalServerError"
| "status InvalidJSON = BadRequest"
| "status (NotAnObject k) = BadRequest"
| "status NotAnArray = BadRequest"
| "status (IndexOutOfBounds i) = BadRequest"
| "status ComplexArrayPath = BadRequest"

section \<open>JSON values\<close>

text \<open>
  What \<open>json.Unmarshal\<close> stores into an \<open>interface{}\<close>: \<open>nil\<close>, \<open>bool\<close>,
  \<open>float64\<close>, \<open>string\<close>, \<open>[]interface{}\<close> or \<open>map[string]interface{}\<close>. The
  evaluator never looks into a number, so the type of numbers is a parameter. A map
  is an association list read with \<open>map_of\<close>.
\<close>

datatype 'n json =
    JNull
  | JBool bool
  | JNumber 'n
  | JString string
  | JArray "'n json list"
  | JObject "(string \<times> 'n json) list"

text \<open>\<open>m[key]\<close> on a Go map: the zero value \<open>nil\<close> for a missing key.\<close>

definition index :: "(string \<times> 'n json) list \<Rightarrow> string \<Rightarrow> 'n json" where
  "index m key = (case map_of m key of Some v \<Rightarrow> v | None \<Rightarrow> JNull)"

section \<open>The pattern for array indexing\<close>

text \<open>
  \<open>arrayIndexRegex\<close> is \<open>(.*)\[(\d+)\](.*)\<close>, applied with
  \<open>FindStringSubmatch\<close>: the leftmost match, the first group as long as possible.
  \<open>.\<close> does not match a newline, so a match lies within one line of the segment:
  the first line that holds a bracketed number, split at the last bracketed number
  of that line.

  \<open>bracketAt s\<close>: \<open>s\<close> starts with \<open>[\<close>, one or more digits and \<open>]\<close>; the result is
  the digits and what follows the \<open>]\<close>.
\<close>

definition bracketAt :: "string \<Rightarrow> (string \<times> string) option" where
  "bracketAt s =
     (case s of
        [] \<Rightarrow> None
      | c # cs \<Rightarrow>
          if c \<noteq> CHR ''['' then None
          else (let ds = takeWhile isDigit cs; r = dropWhile isDigit cs
                in if ds = [] then None
                   else (case r of
                           [] \<Rightarrow> None
                         | d # rest \<Rightarrow> if d = CHR '']'' then Some (ds, rest) else None)))"

text \<open>
  \<open>matchLine pre s\<close>: the match within a line whose part already passed is \<open>pre\<close>;
  a later bracketed number is preferred to an earlier one (the first group is greedy).
\<close>

fun matchLine :: "string \<Rightarrow> string \<Rightarrow> (string \<times> string \<times> string) option" where
  "matchLine pre [] = None"
| "matchLine pre (c # cs) =
     (case matchLine (pre @ [c]) cs of
        Some m \<Rightarrow> Some m
      | None \<Rightarrow>
          (case bracketAt (c # cs) of
             Some (ds, rest) \<Rightarrow> Some (pre, ds, rest)
           | None \<Rightarrow> None))"

fun firstMatch :: "string list \<Rightarrow> (string \<times> string \<times> string) option" where
  "firstMatch [] = None"
| "firstMatch (l # ls) =
     (case matchLine [] l of Some m \<Rightarrow> Some m | None \<Rightarrow> firstMatch ls)"

text \<open>
  \<open>findStringSubmatch part\<close>: the three groups \<open>(objKey, idxStr, restPath)\<close>, or
  \<open>None\<close> when the pattern does not match (\<open>len(arrayMatches) = 0\<close>).
\<close>

definition findStringSubmatch :: "string \<Rightarrow> (string \<times> string \<times> string) option" where
  "findStringSubmatch part = firstMatch (split part (CHR 0x0A))"

text \<open>
  \<open>idx := 0; fmt.Sscanf(idxStr, "%d", &idx)\<close> on a string of digits. The result of
  \<open>Sscanf\<close> is dropped by the source: when the digits do not fit an \<open>int\<close> (64 bits),
  the scan fails and \<open>idx\<close> keeps its initial value \<open>0\<close>.
\<close>

definition sscanfInt :: "string \<Rightarrow> int" where
  "sscanfInt idxStr = (if decimal idxStr < 2 ^ 63 then int (decimal idxStr) else 0)"

section \<open>JSON path evaluation\<close>

text \<open>
  The body of the loop over \<open>parts\<close> in \<open>queryJSON\<close> (lines 568 to 626): one segment
  applied to the running \<open>result\<close>.
\<close>

definition evalPart :: "'n json \<Rightarrow> string \<Rightarrow> failure + 'n json" where
  "evalPart result part =
     (case findStringSubmatch part of
        Some (objKey, idxStr, restPath) \<Rightarrow>
          (case (if objKey \<noteq> []
                 then (case result of
                         JObject m \<Rightarrow> Inr (index m objKey)
                       | _ \<Rightarrow> Inl (NotAnObject objKey))
                 else Inr result) of
             Inl e \<Rightarrow> Inl e
           | Inr result1 \<Rightarrow>
               (case result1 of
                  JArray arr \<Rightarrow>
                    (let idx = sscanfInt idxStr
                     in if 0 \<le> idx \<and> idx < int (length arr)
                        then (if restPath \<noteq> [] then Inl ComplexArrayPath
                              else Inr (arr ! nat idx))
                        else Inl (IndexOutOfBounds idx))
                | _ \<Rightarrow> Inl NotAnArray))
      | None \<Rightarrow>
          (case result of
             JObject m \<Rightarrow> Inr (index m part)
           | _ \<Rightarrow> Inl (NotAnObject part)))"

fun evalParts :: "'n json \<Rightarrow> string list \<Rightarrow> failure + 'n json" where
  "evalParts result [] = Inr result"
| "evalParts result (part # parts) =
     (case evalPart result part of
        Inl e \<Rightarrow> Inl e
      | Inr result' \<Rightarrow> evalParts result' parts)"

text \<open>\<open>parts := strings.Split(jsonPath, ".")\<close>, \<open>result := jsonData\<close>, then the loop.\<close>

definition evaluate :: "'n json \<Rightarrow> string \<Rightarrow> failure + 'n json" where
  "evaluate jsonData jsonPath = evalParts jsonData (split jsonPath (CHR ''.''))"

section \<open>Paths\<close>

text \<open>
  The functions of package \<open>path/filepath\<close> that \<open>main.go\<close> calls, on Unix
  (separator \<open>/\<close>, no volume names), on the elements of a path.

  \<open>filepath.Ext(path)\<close>: the suffix from the last dot of the last element, empty
  without one. The library scans from the end and stops at a separator; \<open>extFrom\<close>
  is that scan, on the reversed path.
\<close>

fun extFrom :: "string \<Rightarrow> string \<Rightarrow> string" where
  "extFrom [] acc = []"
| "extFrom (c # cs) acc =
     (if c = CHR ''/'' then []
      else if c = CHR ''.'' then c # acc
      else extFrom cs (c # acc))"

definition Ext :: "string \<Rightarrow> string" where
  "Ext path = extFrom (rev path) []"

text \<open>\<open>filepath.IsAbs(path)\<close>.\<close>

definition IsAbs :: "string \<Rightarrow> bool" where
  "IsAbs path = hasPrefix path ''/''"

text \<open>
  \<open>filepath.Clean(path)\<close>: empty elements and \<open>.\<close> are dropped; \<open>..\<close> removes the
  element before it, is dropped at the root of a rooted path and is kept at the
  start of a relative path; the empty result is \<open>.\<close>. \<open>cleanElems rooted out es\<close>
  reads the elements \<open>es\<close> with the elements \<open>out\<close> already written.
\<close>

fun cleanElems :: "bool \<Rightarrow> string list \<Rightarrow> string list \<Rightarrow> string list" where
  "cleanElems rooted out [] = out"
| "cleanElems rooted out (e # es) =
     (if e = [] \<or> e = ''.'' then cleanElems rooted out es
      else if e = ''..'' then
        (if out \<noteq> [] \<and> last out \<noteq> ''..'' then cleanElems rooted (butlast out) es
         else if \<not> rooted then cleanElems rooted (out @ [''..'']) es
         else cleanElems rooted out es)
      else cleanElems rooted (out @ [e]) es)"

definition Clean :: "string \<Rightarrow> string" where
  "Clean path =
     (let rooted = hasPrefix path ''/'';
          out = cleanElems rooted [] (split path (CHR ''/''))
      in if rooted then CHR ''/'' # joinWith (CHR ''/'') out
         else if out = [] then ''.''
         else joinWith (CHR ''/'') out)"

text \<open>
  \<open>filepath.Join(elem...)\<close>: the elements from the first non-empty one on, joined
  with separators and cleaned; the empty string when every element is empty.
\<close>

definition Join :: "string list \<Rightarrow> string" where
  "Join elem =
     (case dropWhile (\<lambda>e. e = []) elem of
        [] \<Rightarrow> []
      | e # es \<Rightarrow> Clean (joinWith (CHR ''/'') (e # es)))"

text \<open>
  \<open>filepath.Rel(basepath, targpath)\<close>; \<open>None\<close> is the error. Both paths are cleaned,
  the elements they share at the start are dropped, and each element left of the base
  becomes one \<open>..\<close> before the elements left of the target. \<open>pathElems\<close> are the
  elements as the library's scan sees them: an empty element after a final separator
  is not one. \<open>listFiles\<close> is the only caller, with the listed directory and the path
  of one of its entries.
\<close>

definition pathElems :: "string \<Rightarrow> string list" where
  "pathElems p = (let es = split p (CHR ''/'') in if last es = [] then butlast es else es)"

fun dropCommon :: "string list \<Rightarrow> string list \<Rightarrow> string list \<times> string list" where
  "dropCommon (b # bs) (t # ts) = (if b = t then dropCommon bs ts else (b # bs, t # ts))"
| "dropCommon bs ts = (bs, ts)"

definition Rel :: "string \<Rightarrow> string \<Rightarrow> string option" where
  "Rel basepath targpath =
     (let base = Clean basepath; targ = Clean targpath
      in if targ = base then Some ''.''
         else (let base = (if base = ''.'' then [] else base)
               in if hasPrefix base ''/'' \<noteq> hasPrefix targ ''/'' then None
                  else (case dropCommon (pathElems base) (pathElems targ) of
                          (bs, ts) \<Rightarrow>
                            if bs \<noteq> [] \<and> ts \<noteq> [] \<and> hd bs = ''..'' then None
                            else if bs \<noteq> []
                            then Some (joinWith (CHR ''/'') (replicate (length bs) ''..'' @ ts))
                            else Some (joinWith (CHR ''/'') ts))))"

section \<open>The operating system\<close>

text \<open>
  The handlers reach the file system through \<open>os.Getwd\<close>, \<open>os.Stat\<close>,
  \<open>os.ReadDir\<close> and \<open>os.ReadFile\<close>, and decode with \<open>json.Unmarshal\<close>. They are
  the fields of a record that each handler takes, so a file system is a value.
  Within one request the file system does not change.
\<close>

text \<open>\<open>os.FileInfo\<close>, as far as it is read: \<open>IsDir()\<close>, \<open>Size()\<close>, \<open>ModTime()\<close>.\<close>

record fileStat =
  statIsDir :: bool
  statSize :: int
  statModTime :: int

text \<open>\<open>os.DirEntry\<close>: \<open>Name()\<close>, \<open>IsDir()\<close> and \<open>Info()\<close>, which can fail.\<close>

record dirEntry =
  entryName :: string
  entryIsDir :: bool
  entryInfo :: "fileStat option"

text \<open>
  The result of \<open>os.Stat\<close>: \<open>err == nil\<close>, \<open>os.IsNotExist(err)\<close>, or another
  error.
\<close>

datatype statResult = StatOk fileStat | StatNotExist | StatError

record 'n os =
  Getwd :: "string option"
  Stat :: "string \<Rightarrow> statResult"
  ReadDir :: "string \<Rightarrow> dirEntry list option"
  ReadFile :: "string \<Rightarrow> string option"
  Unmarshal :: "string \<Rightarrow> 'n json option"

section \<open>Configuration and listing entries\<close>

record Config =
  Port :: string
  AllowedExts :: "string list"
  StaticDir :: string
  IgnoreHidden :: bool
  ReadOnly :: bool

text \<open>The value \<open>main\<close> stores into the global \<open>config\<close>.\<close>

definition mainConfig :: "string \<Rightarrow> string \<Rightarrow> bool \<Rightarrow> Config" where
  "mainConfig port staticDir readOnly =
     \<lparr>Port = port, AllowedExts = [''.md'', ''.json''], StaticDir = staticDir,
      IgnoreHidden = True, ReadOnly = readOnly\<rparr>"

text \<open>The struct \<open>FileInfo\<close>; \<open>Children\<close> is never set and is left out.\<close>

record FileInfo =
  Name :: string
  Path :: string
  IsDir :: bool
  Size :: int
  ModTime :: int

text \<open>The loop over \<open>config.AllowedExts\<close> that sets \<open>isAllowedExt\<close>.\<close>

fun isAllowedExt :: "string list \<Rightarrow> string \<Rightarrow> bool" where
  "isAllowedExt [] ext = False"
| "isAllowedExt (allowedExt # allowedExts) ext =
     (if ext = allowedExt then True else isAllowedExt allowedExts ext)"

section \<open>Path resolution\<close>

text \<open>
  \<open>getFileContent\<close> (lines 308 to 362) and \<open>queryJSON\<close> (lines 453 to 507) hold
  the same code, modelled once.

  The loop over the entries of \<open>baseDir\<close>, appending to \<open>filePaths\<close>.
\<close>

fun appendSubDirPaths :: "string \<Rightarrow> string \<Rightarrow> dirEntry list \<Rightarrow> string list \<Rightarrow> string list" where
  "appendSubDirPaths baseDir requestedFile [] filePaths = filePaths"
| "appendSubDirPaths baseDir requestedFile (entry # entries) filePaths =
     appendSubDirPaths baseDir requestedFile entries
       (if entryIsDir entry
        then filePaths @ [Join [baseDir, entryName entry, requestedFile]]
        else filePaths)"

definition buildFilePaths :: "'n os \<Rightarrow> string \<Rightarrow> string \<Rightarrow> string \<Rightarrow> string list" where
  "buildFilePaths os baseDir requestedDir requestedFile =
     (let filePaths0 = (if requestedDir \<noteq> []
                        then [Join [baseDir, requestedDir, requestedFile]] else []);
          filePaths1 = filePaths0 @ [Join [baseDir, requestedFile]]
      in if \<not> contains requestedFile ''/''
         then (case ReadDir os baseDir of
                 Some entries \<Rightarrow> appendSubDirPaths baseDir requestedFile entries filePaths1
               | None \<Rightarrow> filePaths1)
         else filePaths1)"

text \<open>\<open>err == nil && !info.IsDir()\<close> after \<open>os.Stat(path)\<close>.\<close>

definition isFile :: "'n os \<Rightarrow> string \<Rightarrow> bool" where
  "isFile os path = (case Stat os path of StatOk info \<Rightarrow> \<not> statIsDir info | _ \<Rightarrow> False)"

text \<open>
  The loop that tries each path and breaks at the first file; \<open>resolvedPath\<close> stays
  the empty string when none is one.
\<close>

fun tryPaths :: "'n os \<Rightarrow> string list \<Rightarrow> string" where
  "tryPaths os [] = []"
| "tryPaths os (path # paths) = (if isFile os path then path else tryPaths os paths)"

text \<open>The retry of lines 346 to 354.\<close>

definition retryFullPath :: "'n os \<Rightarrow> string \<Rightarrow> string \<Rightarrow> string \<Rightarrow> string" where
  "retryFullPath os baseDir requestedFile resolvedPath =
     (if resolvedPath = [] \<and> contains requestedFile ''/''
      then (let fullPath = Join [baseDir, requestedFile]
            in if isFile os fullPath then fullPath else resolvedPath)
      else resolvedPath)"

definition resolvePath :: "'n os \<Rightarrow> string \<Rightarrow> string \<Rightarrow> string \<Rightarrow> failure + string" where
  "resolvePath os baseDir requestedDir requestedFile =
     (let filePaths = buildFilePaths os baseDir requestedDir requestedFile;
          resolvedPath = retryFullPath os baseDir requestedFile (tryPaths os filePaths)
      in if resolvedPath = [] then Inl (FileNotFound requestedFile) else Inr resolvedPath)"

section \<open>The handlers\<close>

text \<open>
  What is left of \<open>getFileContent\<close> and of \<open>queryJSON\<close> once the path is resolved.
  The content type is \<open>None\<close> where the handler sets no header.
\<close>

definition contentType :: "string \<Rightarrow> string option" where
  "contentType ext =
     (if ext = ''.json'' then Some ''application/json''
      else if ext = ''.md'' then Some ''text/plain''
      else None)"

definition serveFile :: "Config \<Rightarrow> 'n os \<Rightarrow> string \<Rightarrow> failure + (string option \<times> string)" where
  "serveFile config os filePath =
     (if contains filePath ''..'' then Inl InvalidFilePath
      else (case Stat os filePath of
              StatNotExist \<Rightarrow> Inl (FileNotFound filePath)
            | StatError \<Rightarrow> Inl StatFailed
            | StatOk fileInfo \<Rightarrow>
                if statIsDir fileInfo then Inl CannotDisplayDirectory
                else (let ext = toLower (Ext filePath)
                      in if \<not> isAllowedExt (AllowedExts config) ext
                         then Inl (UnsupportedFileType ext)
                         else (case ReadFile os filePath of
                                 None \<Rightarrow> Inl ReadFileFailed
                               | Some data \<Rightarrow> Inr (contentType ext, data)))))"

definition getFileContent ::
  "Config \<Rightarrow> 'n os \<Rightarrow> string \<Rightarrow> string \<Rightarrow> failure + (string option \<times> string)" where
  "getFileContent config os requestedFile requestedDir =
     (case Getwd os of
        None \<Rightarrow> Inl GetwdFailed
      | Some baseDir \<Rightarrow>
          (case resolvePath os baseDir requestedDir requestedFile of
             Inl e \<Rightarrow> Inl e
           | Inr filePath \<Rightarrow> serveFile config os filePath))"

definition queryFile :: "'n os \<Rightarrow> string \<Rightarrow> string \<Rightarrow> failure + 'n json" where
  "queryFile os filePath jsonPath =
     (if contains filePath ''..'' then Inl InvalidFilePath
      else (case Stat os filePath of
              StatNotExist \<Rightarrow> Inl (FileNotFound filePath)
            | StatError \<Rightarrow> Inl StatFailed
            | StatOk fileInfo \<Rightarrow>
                if statIsDir fileInfo then Inl CannotQueryDirectory
                else if toLower (Ext filePath) \<noteq> ''.json'' then Inl FileIsNotJSON
                else (case ReadFile os filePath of
                        None \<Rightarrow> Inl ReadFileFailed
                      | Some data \<Rightarrow>
                          (case Unmarshal os data of
                             None \<Rightarrow> Inl InvalidJSON
                           | Some jsonData \<Rightarrow> evaluate jsonData jsonPath))))"

definition queryJSON :: "'n os \<Rightarrow> string \<Rightarrow> string \<Rightarrow> string \<Rightarrow> failure + 'n json" where
  "queryJSON os requestedFile jsonPath requestedDir =
     (if requestedFile = [] \<or> jsonPath = [] then Inl MissingFileOrPath
      else (case Getwd os of
              None \<Rightarrow> Inl GetwdFailed
            | Some baseDir \<Rightarrow>
                (case resolvePath os baseDir requestedDir requestedFile of
                   Inl e \<Rightarrow> Inl e
                 | Inr filePath \<Rightarrow> queryFile os filePath jsonPath)))"

text \<open>A request fails with a given status.\<close>

definition failsWith :: "failure + 'a \<Rightarrow> http_status \<Rightarrow> bool" where
  "failsWith r s = (case r of Inl e \<Rightarrow> status e = s | Inr v \<Rightarrow> False)"

section \<open>Directory listing\<close>

text \<open>The directory that \<open>listFiles\<close> lists (lines 129 to 140).\<close>

definition listRoot :: "string \<Rightarrow> string \<Rightarrow> string" where
  "listRoot baseDir requestedDir =
     (if requestedDir = [] \<or> requestedDir = ''.'' then baseDir
      else if IsAbs requestedDir then requestedDir
      else Join [baseDir, requestedDir])"

text \<open>The test of lines 188 to 191 for build and dependency directories.\<close>

definition isBuildDir :: "dirEntry \<Rightarrow> string \<Rightarrow> bool" where
  "isBuildDir entry entryPath =
     (entryIsDir entry \<and>
      (entryName entry = ''node_modules'' \<or> contains entryPath ''node_modules'' \<or>
       entryName entry = ''build'' \<or> entryName entry = ''dist''))"

text \<open>
  The quick check of lines 225 to 238 over the entries of a subdirectory: it stops
  at the first entry that is not a directory and has an allowed extension.
\<close>

fun hasRelevantFiles :: "Config \<Rightarrow> dirEntry list \<Rightarrow> bool" where
  "hasRelevantFiles config [] = False"
| "hasRelevantFiles config (subEntry # subEntries) =
     (if \<not> entryIsDir subEntry \<and>
         isAllowedExt (AllowedExts config) (toLower (Ext (entryName subEntry)))
      then True
      else hasRelevantFiles config subEntries)"

text \<open>
  One round of the loop over \<open>entries\<close> (lines 178 to 265): \<open>None\<close> where the
  source says \<open>continue\<close>, the element appended otherwise.
\<close>

definition listEntry :: "Config \<Rightarrow> 'n os \<Rightarrow> string \<Rightarrow> dirEntry \<Rightarrow> FileInfo option" where
  "listEntry config os rootDir entry =
     (let entryPath = Join [rootDir, entryName entry]
      in if IgnoreHidden config \<and> hasPrefix (entryName entry) ''.'' then None
         else if isBuildDir entry entryPath then None
         else (case entryInfo entry of
                 None \<Rightarrow> None
               | Some info \<Rightarrow>
                   if \<not> entryIsDir entry \<and>
                      \<not> isAllowedExt (AllowedExts config) (toLower (Ext (entryName entry)))
                   then None
                   else if entryIsDir entry \<and>
                           \<not> (case ReadDir os entryPath of
                                Some subEntries \<Rightarrow> hasRelevantFiles config subEntries
                              | None \<Rightarrow> False)
                   then None
                   else (case Rel rootDir entryPath of
                           None \<Rightarrow> None
                         | Some relPath \<Rightarrow>
                             Some \<lparr>Name = entryName entry, Path = relPath,
                                   IsDir = entryIsDir entry, Size = statSize info,
                                   ModTime = statModTime info\<rparr>)))"

fun listEntries :: "Config \<Rightarrow> 'n os \<Rightarrow> string \<Rightarrow> dirEntry list \<Rightarrow> FileInfo list" where
  "listEntries config os rootDir [] = []"
| "listEntries config os rootDir (entry # entries) =
     (case listEntry config os rootDir entry of
        None \<Rightarrow> listEntries config os rootDir entries
      | Some fileInfo \<Rightarrow> fileInfo # listEntries config os rootDir entries)"

text \<open>The comparison given to \<open>sort.Slice\<close> (lines 268 to 276).\<close>

definition fileLess :: "FileInfo \<Rightarrow> FileInfo \<Rightarrow> bool" where
  "fileLess a b = (if IsDir a \<noteq> IsDir b then IsDir a else strLess (Name a) (Name b))"

text \<open>
  \<open>sort.Slice\<close> sorts by the comparison it is given and promises no order among
  elements that compare equal; it is modelled by insertion.
\<close>

fun insertSlice :: "('a \<Rightarrow> 'a \<Rightarrow> bool) \<Rightarrow> 'a \<Rightarrow> 'a list \<Rightarrow> 'a list" where
  "insertSlice lt x [] = [x]"
| "insertSlice lt x (y # ys) =
     (if lt y x then y # insertSlice lt x ys else x # y # ys)"

fun sortSlice :: "('a \<Rightarrow> 'a \<Rightarrow> bool) \<Rightarrow> 'a list \<Rightarrow> 'a list" where
  "sortSlice lt [] = []"
| "sortSlice lt (x # xs) = insertSlice lt x (sortSlice lt xs)"

definition listFiles :: "Config \<Rightarrow> 'n os \<Rightarrow> string \<Rightarrow> failure + FileInfo list" where
  "listFiles config os requestedDir =
     (case Getwd os of
        None \<Rightarrow> Inl GetwdFailed
      | Some baseDir \<Rightarrow>
          (let rootDir = listRoot baseDir requestedDir
           in case Stat os rootDir of
                StatNotExist \<Rightarrow> Inl (DirectoryNotFound rootDir)
              | StatError \<Rightarrow> Inl StatFailed
              | StatOk fileInfo \<Rightarrow>
                  if \<not> statIsDir fileInfo then Inl (NotADirectory rootDir)
                  else (case ReadDir os rootDir of
                          None \<Rightarrow> Inl ReadDirFailed
                        | Some entries \<Rightarrow>
                            Inr (sortSlice fileLess (listEntries config os rootDir entries)))))"

section \<open>Statements of the specification\<close>

text \<open>
  The candidate list as the specification words it: the hinted path when there is
  a hint, the path under the root, and, for a name without separator, the path under
  every immediate subdirectory of the root.
\<close>

definition subdirectories :: "'n os \<Rightarrow> string \<Rightarrow> string list" where
  "subdirectories os root =
     (case ReadDir os root of
        None \<Rightarrow> []
      | Some entries \<Rightarrow> map entryName (filter entryIsDir entries))"

definition specCandidates :: "'n os \<Rightarrow> string \<Rightarrow> string \<Rightarrow> string \<Rightarrow> string list" where
  "specCandidates os root directoryHint requestedName =
     (if directoryHint \<noteq> [] then [Join [root, directoryHint, requestedName]] else [])
     @ [Join [root, requestedName]]
     @ (if \<not> contains requestedName ''/''
        then map (\<lambda>D. Join [root, D, requestedName]) (subdirectories os root)
        else [])"

text \<open>The fourth step as a last candidate.\<close>

definition specRetry :: "string \<Rightarrow> string \<Rightarrow> string list" where
  "specRetry root requestedName =
     (if contains requestedName ''/'' then [Join [root, requestedName]] else [])"

text \<open>First match wins: the first candidate that is a file, \<open>NotFound\<close> without one.\<close>

definition specResolve :: "'n os \<Rightarrow> string list \<Rightarrow> failure + string \<Rightarrow> bool" where
  "specResolve os candidates r =
     (case List.find (isFile os) candidates of
        Some path \<Rightarrow> r = Inr path
      | None \<Rightarrow> failsWith r NotFound)"

text \<open>The resolver without the retry, for comparison.\<close>

definition resolvePathNoRetry :: "'n os \<Rightarrow> string \<Rightarrow> string \<Rightarrow> string \<Rightarrow> failure + string" where
  "resolvePathNoRetry os baseDir requestedDir requestedFile =
     (let filePaths = buildFilePaths os baseDir requestedDir requestedFile;
          resolvedPath = tryPaths os filePaths
      in if resolvedPath = [] then Inl (FileNotFound requestedFile) else Inr resolvedPath)"

text \<open>
  The order of a listing: a directory before a file, and a name not after a later
  name of the same kind.
\<close>

definition listedBefore :: "FileInfo \<Rightarrow> FileInfo \<Rightarrow> bool" where
  "listedBefore a b =
     ((IsDir a \<and> \<not> IsDir b) \<or>
      (IsDir a = IsDir b \<and> (Name a = Name b \<or> strLess (Name a) (Name b))))"

text \<open>
  The shallow scan of a subdirectory finds a file with an allowed extension.
\<close>

definition shallowScanFinds :: "Config \<Rightarrow> 'n os \<Rightarrow> string \<Rightarrow> bool" where
  "shallowScanFinds config os dir =
     (case ReadDir os dir of
        None \<Rightarrow> False
      | Some subEntries \<Rightarrow>
          list_ex (\<lambda>subEntry. \<not> entryIsDir subEntry \<and>
                     toLower (Ext (entryName subEntry)) \<in> set (AllowedExts config))
                  subEntries)"

text \<open>
  The names a directory can hold: not empty, no separator, and neither \<open>.\<close> nor
  \<open>..\<close>.
\<close>

definition validName :: "string \<Rightarrow> bool" where
  "validName n = (n \<noteq> [] \<and> CHR ''/'' \<notin> set n \<and> n \<noteq> ''.'' \<and> n \<noteq> ''..'')"


text \<open>A listing holds a directory of the given name.\<close>

definition listsDirectory :: "FileInfo list \<Rightarrow> string \<Rightarrow> bool" where
  "listsDirectory files n = list_ex (\<lambda>f. Name f = n \<and> IsDir f) files"

text \<open>A directory whose entries are all directories.\<close>

definition onlySubdirectories :: "'n os \<Rightarrow> string \<Rightarrow> bool" where
  "onlySubdirectories os dir =
     (case ReadDir os dir of None \<Rightarrow> False | Some subEntries \<Rightarrow> list_all entryIsDir subEntries)"

text \<open>
  A directory that holds files of the given names and nothing else, in whatever
  order \<open>os.ReadDir\<close> gives them.
\<close>

definition holdsFiles :: "'n os \<Rightarrow> string \<Rightarrow> string list \<Rightarrow> bool" where
  "holdsFiles os dir names =
     (case ReadDir os dir of
        None \<Rightarrow> False
      | Some entries \<Rightarrow>
          mset (map entryName entries) = mset names \<and>
          list_all (\<lambda>entry. \<not> entryIsDir entry \<and> entryInfo entry \<noteq> None) entries)"

text \<open>
  A file of the given name is kept by the listing: the name is not hidden while
  hidden names are ignored, and its lower-cased extension is allowed.
\<close>

definition keptName :: "Config \<Rightarrow> string \<Rightarrow> bool" where
  "keptName config n =
     (\<not> (IgnoreHidden config \<and> hasPrefix n ''.'') \<and>
      isAllowedExt (AllowedExts config) (toLower (Ext n)))"

text \<open>Names in ascending order of their bytes.\<close>

definition nameBefore :: "string \<Rightarrow> string \<Rightarrow> bool" where
  "nameBefore a b = (a = b \<or> strLess a b)"

text \<open>
  The entry is passed over by the test for hidden names or by the test for build and
  dependency directories, or its \<open>Info()\<close> fails.
\<close>

definition passedOver :: "Config \<Rightarrow> string \<Rightarrow> dirEntry \<Rightarrow> bool" where
  "passedOver config rootDir entry =
     ((IgnoreHidden config \<and> hasPrefix (entryName entry) ''.'') \<or>
      isBuildDir entry (Join [rootDir, entryName entry]) \<or>
      entryInfo entry = None)"

section \<open>Example values\<close>

text \<open>The document \<open>{"a":{"b":[1,2,3]}}\<close>.\<close>

definition docAB :: "int json" where
  "docAB = JObject [(''a'', JObject [(''b'', JArray [JNumber 1, JNumber 2, JNumber 3])])]"

text \<open>The document \<open>{"a":1}\<close>.\<close>

definition docA :: "int json" where
  "docA = JObject [(''a'', JNumber 1)]"

text \<open>The document \<open>{"key[0]":[10,20]}\<close>, whose one key holds brackets.\<close>

definition docBracketKey :: "int json" where
  "docBracketKey = JObject [(''key[0]'', JArray [JNumber 10, JNumber 20])]"

text \<open>The document \<open>{"key":[[1,2]]}\<close>, an array in an array.\<close>

definition docNested :: "int json" where
  "docNested = JObject [(''key'', JArray [JArray [JNumber 1, JNumber 2]])]"

text \<open>The document \<open>{"key":[1]}\<close>.\<close>

definition docKey :: "int json" where
  "docKey = JObject [(''key'', JArray [JNumber 1])]"

text \<open>
  A file system for the examples. The working directory is \<open>/srv\<close>:
  \<^verbatim>\<open>
  /outside.md
  /srv/a..md
  /srv/build/a.md
  /srv/data.json
  /srv/docs/notes.md
  /srv/empty/deep/x.md
  /srv/notes/.hidden.md  /srv/notes/readme.md  /srv/notes/Z.json  /srv/notes/a.md
  /srv/notes.txt
  \<close>
\<close>

definition aFile :: fileStat where
  "aFile = \<lparr>statIsDir = False, statSize = 7, statModTime = 0\<rparr>"

definition aDir :: fileStat where
  "aDir = \<lparr>statIsDir = True, statSize = 0, statModTime = 0\<rparr>"

definition fileEntry :: "string \<Rightarrow> dirEntry" where
  "fileEntry n = \<lparr>entryName = n, entryIsDir = False, entryInfo = Some aFile\<rparr>"

definition subdirEntry :: "string \<Rightarrow> dirEntry" where
  "subdirEntry n = \<lparr>entryName = n, entryIsDir = True, entryInfo = Some aDir\<rparr>"

definition exStat :: "(string \<times> fileStat) list" where
  "exStat =
     [(''/'', aDir), (''/outside.md'', aFile), (''/srv'', aDir),
      (''/srv/a..md'', aFile),
      (''/srv/build'', aDir), (''/srv/build/a.md'', aFile),
      (''/srv/data.json'', aFile),
      (''/srv/docs'', aDir), (''/srv/docs/notes.md'', aFile),
      (''/srv/empty'', aDir), (''/srv/empty/deep'', aDir),
      (''/srv/empty/deep/x.md'', aFile),
      (''/srv/notes'', aDir), (''/srv/notes/.hidden.md'', aFile),
      (''/srv/notes/readme.md'', aFile), (''/srv/notes/Z.json'', aFile),
      (''/srv/notes/a.md'', aFile),
      (''/srv/notes.txt'', aFile)]"

definition exDirs :: "(string \<times> dirEntry list) list" where
  "exDirs =
     [(''/'', [fileEntry ''outside.md'', subdirEntry ''srv'']),
      (''/srv'', [fileEntry ''a..md'', subdirEntry ''build'', fileEntry ''data.json'',
                  subdirEntry ''docs'', subdirEntry ''empty'', subdirEntry ''notes'',
                  fileEntry ''notes.txt'']),
      (''/srv/build'', [fileEntry ''a.md'']),
      (''/srv/docs'', [fileEntry ''notes.md'']),
      (''/srv/empty'', [subdirEntry ''deep'']),
      (''/srv/empty/deep'', [fileEntry ''x.md'']),
      (''/srv/notes'', [fileEntry ''.hidden.md'', fileEntry ''Z.json'',
                        fileEntry ''a.md'', fileEntry ''readme.md''])]"

definition exOs :: "int os" where
  "exOs =
     \<lparr>Getwd = Some ''/srv'',
      Stat = (\<lambda>p. case map_of exStat p of Some st \<Rightarrow> StatOk st | None \<Rightarrow> StatNotExist),
      ReadDir = map_of exDirs,
      ReadFile = (\<lambda>p. case map_of exStat p of
                         Some st \<Rightarrow> if statIsDir st then None else Some ''[1,2,3]''
                       | None \<Rightarrow> None),
      Unmarshal = (\<lambda>data. if data = ''[1,2,3]''
                           then Some (JArray [JNumber 1, JNumber 2, JNumber 3]) else None)\<rparr>"

text \<open>The configuration of \<open>main\<close> with the default flags.\<close>

definition exConfig :: Config where
  "exConfig = mainConfig ''8080'' ''./frontend/build'' True"

text \<open>The entries of \<open>/srv\<close> and its listing.\<close>

definition srvEntries :: "dirEntry list" where
  "srvEntries =
     [fileEntry ''a..md'', subdirEntry ''build'', fileEntry ''data.json'',
      subdirEntry ''docs'', subdirEntry ''empty'', subdirEntry ''notes'',
      fileEntry ''notes.txt'']"

definition listed :: "string \<Rightarrow> bool \<Rightarrow> int \<Rightarrow> FileInfo" where
  "listed n d sz = \<lparr>Name = n, Path = n, IsDir = d, Size = sz, ModTime = 0\<rparr>"

definition srvListing :: "FileInfo list" where
  "srvListing =
     [listed ''docs'' True 0, listed ''notes'' True 0,
      listed ''a..md'' False 7, listed ''data.json'' False 7]"

definition notesListing :: "FileInfo list" where
  "notesListing =
     [listed ''Z.json'' False 7, listed ''a.md'' False 7, listed ''readme.md'' False 7]"

section \<open>Splitting\<close>

lemma splitFrom_no_sep: "sep \<notin> set s \<Longrightarrow> splitFrom sep cur s = [cur @ s]"
  by (induction s arbitrary: cur) auto

lemma split_no_sep: "sep \<notin> set s \<Longrightarrow> split s sep = [s]"
  by (simp add: split_def splitFrom_no_sep)

lemma splitFrom_append:
  "sep \<notin> set a \<Longrightarrow> splitFrom sep cur (a @ sep # b) = (cur @ a) # splitFrom sep [] b"
  by (induction a arbitrary: cur) auto

lemma split_append: "sep \<notin> set a \<Longrightarrow> split (a @ sep # b) sep = a # split b sep"
  by (simp add: split_def splitFrom_append)

lemma set_splitFrom: "l \<in> set (splitFrom sep cur s) \<Longrightarrow> set l \<subseteq> set cur \<union> set s"
proof (induction s arbitrary: cur)
  case Nil
  then show ?case by simp
next
  case (Cons c cs)
  show ?case
  proof (cases "c = sep")
    case True
    with Cons.prems have "l = cur \<or> l \<in> set (splitFrom sep [] cs)" by simp
    with Cons.IH[of "[]"] show ?thesis by auto
  next
    case False
    with Cons.prems have "l \<in> set (splitFrom sep (cur @ [c]) cs)" by simp
    from Cons.IH[OF this] show ?thesis by auto
  qed
qed

section \<open>The JSON path evaluator\<close>

lemmas eval_defs =
  evaluate_def split_def evalPart_def findStringSubmatch_def bracketAt_def isDigit_def
  sscanfInt_def decimal_def index_def

text \<open>A segment without an opening bracket is a plain segment.\<close>

lemma matchLine_no_bracket: "CHR ''['' \<notin> set s \<Longrightarrow> matchLine pre s = None"
  by (induction s arbitrary: pre) (auto simp: bracketAt_def split: option.splits)

lemma firstMatch_None: "(\<And>l. l \<in> set ls \<Longrightarrow> matchLine [] l = None) \<Longrightarrow> firstMatch ls = None"
  by (induction ls) auto

lemma bracket_free_plain: "CHR ''['' \<notin> set part \<Longrightarrow> findStringSubmatch part = None"
  unfolding findStringSubmatch_def split_def
  by (rule firstMatch_None, rule matchLine_no_bracket) (use set_splitFrom in fastforce)

lemma evalPart_plain:
  "findStringSubmatch part = None \<Longrightarrow> evalPart (JObject m) part = Inr (index m part)"
  by (simp add: evalPart_def)

lemma evalPart_plain_not_object:
  "findStringSubmatch part = None \<Longrightarrow> \<forall>m. result \<noteq> JObject m \<Longrightarrow>
   evalPart result part = Inl (NotAnObject part)"
  by (cases result) (simp_all add: evalPart_def)

text \<open>Every failure of the evaluator is a \<open>BadRequest\<close>.\<close>

lemma evalPart_status: "evalPart result part = Inl e \<Longrightarrow> status e = BadRequest"
  by (auto simp: evalPart_def Let_def split: option.splits json.splits if_splits sum.splits)

lemma evalParts_status: "evalParts result parts = Inl e \<Longrightarrow> status e = BadRequest"
  by (induction parts arbitrary: result) (auto split: sum.splits dest: evalPart_status)

text \<open>
  An indexed segment whose digits fit an \<open>int\<close>: the element at the index when the
  value under the key is an array that long, \<open>IndexOutOfBounds\<close> when it is shorter.
\<close>

lemma evalPart_indexed:
  assumes "findStringSubmatch part = Some (objKey, idxStr, [])"
      and "(objKey = [] \<and> result = JArray arr) \<or>
           (objKey \<noteq> [] \<and> result = JObject m \<and> index m objKey = JArray arr)"
      and "decimal idxStr < 2 ^ 63"
    shows "evalPart result part =
             (if decimal idxStr < length arr then Inr (arr ! decimal idxStr)
              else Inl (IndexOutOfBounds (int (decimal idxStr))))"
  using assms by (auto simp: evalPart_def sscanfInt_def)

lemma evalPart_not_array:
  assumes "findStringSubmatch part = Some (objKey, idxStr, restPath)"
      and "(objKey = [] \<and> result = r) \<or>
           (objKey \<noteq> [] \<and> result = JObject m \<and> index m objKey = r)"
      and "\<forall>arr. r \<noteq> JArray arr"
    shows "evalPart result part = Inl NotAnArray"
  using assms by (cases r) (auto simp: evalPart_def)

lemma evalPart_complex:
  assumes "findStringSubmatch part = Some (objKey, idxStr, restPath)"
      and "(objKey = [] \<and> result = JArray arr) \<or>
           (objKey \<noteq> [] \<and> result = JObject m \<and> index m objKey = JArray arr)"
      and "sscanfInt idxStr < int (length arr)" and "restPath \<noteq> []"
    shows "evalPart result part = Inl ComplexArrayPath"
  using assms by (auto simp: evalPart_def sscanfInt_def)

text \<open>The two examples of the specification for an index within and beyond the array.\<close>

lemma evaluate_index_1: "evaluate docAB ''a.b[1]'' = Inr (JNumber 2)"
  by (simp add: docAB_def eval_defs)

lemma evaluate_index_5: "evaluate docAB ''a.b[5]'' = Inl (IndexOutOfBounds 5)"
  by (simp add: docAB_def eval_defs)

lemma evaluate_scalar_root: "evaluate (JNumber (5::int)) ''x'' = Inl (NotAnObject ''x'')"
  by (simp add: eval_defs)

text \<open>A segment with a remainder after its index fails, whatever the running result.\<close>

lemma evalPart_rest:
  "findStringSubmatch part = Some (objKey, idxStr, restPath) \<Longrightarrow> restPath \<noteq> [] \<Longrightarrow>
   \<exists>e. evalPart result part = Inl e"
  by (auto simp: evalPart_def Let_def split: json.splits)

lemma evalParts_rest:
  "part \<in> set parts \<Longrightarrow> findStringSubmatch part = Some (objKey, idxStr, restPath) \<Longrightarrow>
   restPath \<noteq> [] \<Longrightarrow> \<exists>e. evalParts result parts = Inl e"
proof (induction parts arbitrary: result)
  case Nil
  then show ?case by simp
next
  case (Cons p ps)
  show ?case
  proof (cases "evalPart result p")
    case (Inl e)
    then show ?thesis by simp
  next
    case (Inr r')
    with Cons.prems evalPart_rest[of part objKey idxStr restPath result] have "part \<in> set ps"
      by auto
    with Cons Inr show ?thesis by simp
  qed
qed

text \<open>
  Claim C2, as stated, at the document \<open>{"a":1}\<close> and the path \<open>x.y\<close>: the key
  \<open>x\<close> is missing, the running result becomes null, and the segment \<open>y\<close> then fails
  because null is not an object; the evaluation does not return null.
\<close>

theorem C2_counterexample: "evaluate docA ''x.y'' = Inl (NotAnObject ''y'')"
  by (simp add: docA_def eval_defs)

text \<open>
  Claim C2, amended: a plain segment looked up on an object whose key is missing
  yields JSON null as the new running result and is not an error; for every document
  that is an object without the key, the path that is this one segment returns null,
  and the path that goes on with a further plain segment fails with \<open>BadRequest\<close>,
  null not being an object.
\<close>

theorem C2_missing_key_yields_null:
  assumes "findStringSubmatch key = None" and "CHR ''.'' \<notin> set key"
      and "map_of m key = None"
      and "findStringSubmatch next = None" and "CHR ''.'' \<notin> set next"
    shows "evalPart (JObject m) key = Inr JNull
         \<and> evaluate (JObject m) key = Inr JNull
         \<and> evaluate (JObject m) (key @ ''.'' @ next) = Inl (NotAnObject next)
         \<and> status (NotAnObject next) = BadRequest"
proof -
  have step: "evalPart (JObject m) key = Inr JNull"
    using assms(1,3) by (simp add: evalPart_plain index_def)
  have "split (key @ ''.'' @ next) (CHR ''.'') = [key, next]"
    using assms(2,5) by (simp add: split_append split_no_sep)
  moreover have "evalPart (JNull :: 'a json) next = Inl (NotAnObject next)"
    using assms(4) by (simp add: evalPart_plain_not_object)
  ultimately show ?thesis
    using step assms(2) by (simp add: evaluate_def split_no_sep)
qed

theorem C2_missing_key_yields_null_witness:
  "findStringSubmatch ''x'' = None \<and> CHR ''.'' \<notin> set ''x''
   \<and> map_of [(''a'', JNumber (1::int))] ''x'' = None
   \<and> findStringSubmatch ''y'' = None \<and> CHR ''.'' \<notin> set ''y''
   \<and> evalPart docA ''x'' = Inr JNull
   \<and> evaluate docA ''x'' = Inr JNull
   \<and> evaluate docA (''x'' @ ''.'' @ ''y'') = Inl (NotAnObject ''y'')"
  using C2_missing_key_yields_null[of "''x''" "[(''a'', JNumber (1::int))]" "''y''"]
  by (simp add: docA_def bracket_free_plain)

text \<open>
  Claim C3, at the document \<open>{"a":{"b":[1,2,3]}}\<close> and the index
  \<open>99999999999999999999\<close>: the index is not below the length 3, and the evaluation
  returns the element at index 0 instead of failing. The digits do not fit an
  \<open>int\<close>, the scan fails, its result is not looked at, and \<open>idx\<close> is still 0.
\<close>

theorem C3_index_beyond_int: "evaluate docAB ''a.b[99999999999999999999]'' = Inr (JNumber 1)"
  by (simp add: docAB_def eval_defs)

text \<open>
  A segment that the pattern splits with a remainder behind its index (as in
  \<open>key[0]x\<close>) fails: with the failure of the key lookup or of the index where one
  of them fails, and with \<open>ComplexArrayPath\<close> where both succeed.
\<close>

lemma evalPart_remainder:
  assumes "findStringSubmatch part = Some (objKey, idxStr, restPath)" and "restPath \<noteq> []"
  shows "evalPart result part =
           (case (if objKey \<noteq> []
                  then (case result of
                          JObject m \<Rightarrow> Inr (index m objKey)
                        | _ \<Rightarrow> Inl (NotAnObject objKey))
                  else Inr result) of
              Inl e \<Rightarrow> Inl e
            | Inr (JArray arr) \<Rightarrow>
                if sscanfInt idxStr < int (length arr) then Inl ComplexArrayPath
                else Inl (IndexOutOfBounds (sscanfInt idxStr))
            | Inr _ \<Rightarrow> Inl NotAnArray)"
proof -
  have "0 \<le> sscanfInt idxStr" by (simp add: sscanfInt_def)
  then show ?thesis
    using assms by (auto simp: evalPart_def Let_def split: sum.splits json.splits)
qed

lemma remainder_fails:
  assumes "part \<in> set (split jsonPath (CHR ''.''))"
      and "findStringSubmatch part = Some (objKey, idxStr, restPath)"
      and "restPath \<noteq> []"
    shows "failsWith (evaluate jsonData jsonPath) BadRequest"
proof -
  from evalParts_rest[OF assms] obtain e where e: "evaluate jsonData jsonPath = Inl e"
    unfolding evaluate_def by blast
  then have "status e = BadRequest"
    unfolding evaluate_def by (rule evalParts_status)
  with e show ?thesis by (simp add: failsWith_def)
qed

lemma remainder_example:
  "findStringSubmatch ''key[0]x'' = Some (''key'', ''0'', ''x'')
   \<and> evaluate docKey ''key[0]x'' = Inl ComplexArrayPath"
  by (simp add: docKey_def eval_defs)

text \<open>
  A chained index on an array in an array is refused, yet not as a complex path:
  the key looked up is \<open>key[0]\<close>, which the document does not hold.
\<close>

lemma chained_index_on_nested_array:
  "evaluate docNested ''key[0][1]'' = Inl NotAnArray"
  by (simp add: docNested_def eval_defs)

text \<open>
  Claim C4, at the document \<open>{"key[0]":[10,20]}\<close> and the chained path
  \<open>key[0][1]\<close>: the claim has the evaluation fail with \<open>BadRequest\<close>. The first
  group of the pattern is greedy and takes \<open>key[0]\<close> as the key, \<open>1\<close> as the index
  and nothing as the remainder, so the test for a remainder after the index is not
  reached, and the evaluation returns 20.
\<close>

theorem C4_chained_index_evaluates:
  "findStringSubmatch ''key[0][1]'' = Some (''key[0]'', ''1'', [])
   \<and> evaluate docBracketKey ''key[0][1]'' = Inr (JNumber 20)"
  by (simp add: docBracketKey_def eval_defs)

section \<open>Path resolution is first match over the candidates\<close>

text \<open>The list built by appending is the list of the specification.\<close>

lemma appendSubDirPaths_eq:
  "appendSubDirPaths baseDir requestedFile entries filePaths =
   filePaths @ map (\<lambda>D. Join [baseDir, D, requestedFile]) (map entryName (filter entryIsDir entries))"
  by (induction entries arbitrary: filePaths) auto

lemma buildFilePaths_spec:
  "buildFilePaths os baseDir requestedDir requestedFile =
   specCandidates os baseDir requestedDir requestedFile"
  by (simp add: buildFilePaths_def specCandidates_def subdirectories_def appendSubDirPaths_eq
      split: option.splits)

lemma tryPaths_find:
  "tryPaths os paths = (case List.find (isFile os) paths of Some path \<Rightarrow> path | None \<Rightarrow> [])"
  by (induction paths) auto

lemma tryPaths_isFile: "tryPaths os paths \<noteq> [] \<Longrightarrow> isFile os (tryPaths os paths)"
  by (induction paths) auto

lemma tryPaths_empty: "tryPaths os paths = [] \<Longrightarrow> [] \<notin> set paths \<Longrightarrow> path \<in> set paths \<Longrightarrow> \<not> isFile os path"
  by (induction paths) (auto split: if_splits)

text \<open>A cleaned path is never the empty string, so no candidate is.\<close>

lemma cleanElems_nonempty_elems:
  "[] \<notin> set out \<Longrightarrow> [] \<notin> set (cleanElems rooted out es)"
proof (induction es arbitrary: out)
  case Nil
  then show ?case by simp
next
  case (Cons e es)
  have 1: "[] \<notin> set (butlast out)" using Cons.prems by (auto dest: in_set_butlastD)
  have 2: "[] \<notin> set (out @ [''..''])" using Cons.prems by simp
  have 3: "e \<noteq> [] \<Longrightarrow> [] \<notin> set (out @ [e])" using Cons.prems by simp
  show ?case
    unfolding cleanElems.simps
    using Cons.IH[OF 1] Cons.IH[OF 2] Cons.IH[OF 3] Cons.IH[OF Cons.prems]
    by (simp only: split: if_split) blast
qed

lemma joinWith_nonempty: "es \<noteq> [] \<Longrightarrow> [] \<notin> set es \<Longrightarrow> joinWith sep es \<noteq> []"
  by (induction sep es rule: joinWith.induct) auto

lemma Clean_nonempty: "Clean path \<noteq> []"
proof -
  have "[] \<notin> set (cleanElems False [] (split path (CHR ''/'')))"
    by (rule cleanElems_nonempty_elems) simp
  then show ?thesis
    by (simp add: Clean_def Let_def joinWith_nonempty)
qed

lemma Join_nonempty: "e \<in> set elem \<Longrightarrow> e \<noteq> [] \<Longrightarrow> Join elem \<noteq> []"
proof -
  assume "e \<in> set elem" "e \<noteq> []"
  then have "dropWhile (\<lambda>e. e = []) elem \<noteq> []" by auto
  then show ?thesis by (auto simp: Join_def Clean_nonempty split: list.splits)
qed

lemma specCandidates_nonempty:
  assumes "baseDir \<noteq> [] \<or> requestedFile \<noteq> []"
  shows "[] \<notin> set (specCandidates os baseDir requestedDir requestedFile)"
proof -
  have 1: "Join [baseDir, requestedFile] \<noteq> []"
    using assms Join_nonempty[of baseDir "[baseDir, requestedFile]"]
      Join_nonempty[of requestedFile "[baseDir, requestedFile]"] by auto
  have 2: "Join [baseDir, D, requestedFile] \<noteq> []" for D
    using assms Join_nonempty[of baseDir "[baseDir, D, requestedFile]"]
      Join_nonempty[of requestedFile "[baseDir, D, requestedFile]"] by auto
  have "p \<in> set (specCandidates os baseDir requestedDir requestedFile) \<Longrightarrow> p \<noteq> []" for p
    unfolding specCandidates_def using 1 2 1[THEN not_sym] 2[THEN not_sym]
    by (auto split: if_splits)
  then show ?thesis by blast
qed


lemma find_append_cases:
  "List.find P (xs @ ys) = (case List.find P xs of Some x \<Rightarrow> Some x | None \<Rightarrow> List.find P ys)"
  by (induction xs) auto

lemma find_Some_mem: "List.find P xs = Some x \<Longrightarrow> x \<in> set xs"
  by (induction xs) (auto split: if_splits)

lemma resolvePath_isFile:
  "resolvePath os baseDir requestedDir requestedFile = Inr filePath \<Longrightarrow> isFile os filePath"
  using tryPaths_isFile[of os "buildFilePaths os baseDir requestedDir requestedFile"]
  by (auto simp: resolvePath_def retryFullPath_def Let_def split: if_splits)

lemma resolvePath_failure:
  "resolvePath os baseDir requestedDir requestedFile = Inl e \<Longrightarrow> e = FileNotFound requestedFile"
  by (auto simp: resolvePath_def Let_def split: if_splits)

text \<open>
  Claim C1: for every content or query request, the candidate list is built in the
  order of the specification (the hinted path when the hint is not empty, the path
  under the root, and for a name without separator the path under every immediate
  subdirectory of the root, in the order \<open>os.ReadDir\<close> gives them), with the retry
  of the path under the root as the last step for a name with a separator; each
  candidate is tested with \<open>os.Stat\<close>, the first one that exists and is not a
  directory is the result, and the request fails with \<open>NotFound\<close> when there is none.
  The working directory is an absolute path, so it is not the empty string.
\<close>

theorem C1_resolution_order:
  assumes "baseDir \<noteq> []"
  shows "buildFilePaths os baseDir requestedDir requestedFile =
           specCandidates os baseDir requestedDir requestedFile
       \<and> specResolve os
           (specCandidates os baseDir requestedDir requestedFile @ specRetry baseDir requestedFile)
           (resolvePath os baseDir requestedDir requestedFile)"
proof -
  let ?cs = "specCandidates os baseDir requestedDir requestedFile"
  have ne: "[] \<notin> set ?cs" using assms by (simp add: specCandidates_nonempty)
  have full: "Join [baseDir, requestedFile] \<noteq> []"
    using assms Join_nonempty[of baseDir "[baseDir, requestedFile]"] by simp
  have "specResolve os (?cs @ specRetry baseDir requestedFile)
          (resolvePath os baseDir requestedDir requestedFile)"
  proof (cases "List.find (isFile os) ?cs")
    case (Some p)
    then have "p \<in> set ?cs" by (rule find_Some_mem)
    with ne have "p \<noteq> []" by auto
    with Some show ?thesis
      by (simp add: specResolve_def resolvePath_def retryFullPath_def buildFilePaths_spec
          tryPaths_find find_append_cases)
  next
    case None
    then show ?thesis
      using full
      by (simp add: specResolve_def resolvePath_def retryFullPath_def buildFilePaths_spec
          tryPaths_find find_append_cases specRetry_def failsWith_def Let_def)
  qed
  then show ?thesis by (simp add: buildFilePaths_spec)
qed

text \<open>The example file system, field by field.\<close>

lemmas path_defs = Join_def Clean_def split_def Ext_def toLower_def toLowerChar_def

lemma exOs_fields:
  "Getwd exOs = Some ''/srv''"
  "Stat exOs p = (case map_of exStat p of Some st \<Rightarrow> StatOk st | None \<Rightarrow> StatNotExist)"
  "ReadDir exOs = map_of exDirs"
  "ReadFile exOs p = (case map_of exStat p of
                         Some st \<Rightarrow> if statIsDir st then None else Some ''[1,2,3]''
                       | None \<Rightarrow> None)"
  "Unmarshal exOs data = (if data = ''[1,2,3]''
                           then Some (JArray [JNumber 1, JNumber 2, JNumber 3]) else None)"
  by (simp_all add: exOs_def)

lemmas exOs_defs =
  exOs_fields exStat_def exDirs_def aFile_def aDir_def fileEntry_def subdirEntry_def

lemma ex_candidates:
  "specCandidates exOs ''/srv'' [] ''notes.md'' =
       [''/srv/notes.md'', ''/srv/build/notes.md'', ''/srv/docs/notes.md'',
        ''/srv/empty/notes.md'', ''/srv/notes/notes.md'']"
  by (simp add: specCandidates_def subdirectories_def exOs_defs path_defs)

lemma ex_resolve: "resolvePath exOs ''/srv'' [] ''notes.md'' = Inr ''/srv/docs/notes.md''"
  by (simp add: resolvePath_def retryFullPath_def buildFilePaths_spec ex_candidates isFile_def
      exOs_defs Let_def)

theorem C1_resolution_order_witness:
  "''/srv'' \<noteq> []
   \<and> buildFilePaths exOs ''/srv'' [] ''notes.md'' = specCandidates exOs ''/srv'' [] ''notes.md''
   \<and> specResolve exOs
        (specCandidates exOs ''/srv'' [] ''notes.md'' @ specRetry ''/srv'' ''notes.md'')
        (resolvePath exOs ''/srv'' [] ''notes.md'')
   \<and> resolvePath exOs ''/srv'' [] ''notes.md'' = Inr ''/srv/docs/notes.md''"
  using C1_resolution_order[of "''/srv''" exOs "[]" "''notes.md''"]
  by (simp add: ex_resolve)

text \<open>
  Claim C10: the path of the retry is the path already tried as the second candidate
  (the first without a directory hint), and for every request the resolver with the
  retry gives what the resolver without it gives.
\<close>

theorem C10_retry_is_redundant:
  "buildFilePaths os baseDir requestedDir requestedFile ! (if requestedDir = [] then 0 else 1)
     = Join [baseDir, requestedFile]
   \<and> resolvePath os baseDir requestedDir requestedFile =
       resolvePathNoRetry os baseDir requestedDir requestedFile"
proof -
  let ?ps = "buildFilePaths os baseDir requestedDir requestedFile"
  let ?full = "Join [baseDir, requestedFile]"
  have nth: "?ps ! (if requestedDir = [] then 0 else 1) = ?full"
    by (simp add: buildFilePaths_spec specCandidates_def)
  have mem: "?full \<in> set ?ps"
    by (simp add: buildFilePaths_spec specCandidates_def)
  have "retryFullPath os baseDir requestedFile (tryPaths os ?ps) = tryPaths os ?ps"
  proof (cases "tryPaths os ?ps = [] \<and> contains requestedFile ''/''")
    case True
    then have "requestedFile \<noteq> []" by auto
    then have "[] \<notin> set ?ps" by (simp add: buildFilePaths_spec specCandidates_nonempty)
    with True mem have "\<not> isFile os ?full" using tryPaths_empty by blast
    with True show ?thesis by (simp add: retryFullPath_def)
  next
    case False
    then show ?thesis by (auto simp: retryFullPath_def)
  qed
  then show ?thesis using nth by (simp add: resolvePath_def resolvePathNoRetry_def)
qed

section \<open>The handlers after resolution\<close>

text \<open>A resolved path passed the test of the loop, so the second \<open>os.Stat\<close> finds a file.\<close>

lemma isFile_Stat: "isFile os path \<Longrightarrow> \<exists>info. Stat os path = StatOk info \<and> \<not> statIsDir info"
  by (auto simp: isFile_def split: statResult.splits)

text \<open>The evaluator has its own failures; none is the failure of the traversal check.\<close>

lemma evalPart_not_InvalidFilePath: "evalPart result part \<noteq> Inl InvalidFilePath"
  by (auto simp: evalPart_def Let_def split: option.splits json.splits if_splits sum.splits)

lemma evalParts_not_InvalidFilePath: "evalParts result parts \<noteq> Inl InvalidFilePath"
  by (induction parts arbitrary: result) (auto split: sum.splits simp: evalPart_not_InvalidFilePath)

lemma serveFile_InvalidFilePath:
  "isFile os filePath \<Longrightarrow>
   (serveFile config os filePath = Inl InvalidFilePath) = contains filePath ''..''"
  by (auto simp: serveFile_def Let_def dest!: isFile_Stat split: option.splits if_splits)

lemma queryFile_InvalidFilePath:
  "isFile os filePath \<Longrightarrow>
   (queryFile os filePath jsonPath = Inl InvalidFilePath) = contains filePath ''..''"
  by (auto simp: queryFile_def evaluate_def evalParts_not_InvalidFilePath dest!: isFile_Stat
      split: option.splits)

text \<open>A request whose path does not resolve is answered \<open>NotFound\<close> before the check.\<close>

lemma unresolved_getFileContent:
  "Getwd os = Some baseDir \<Longrightarrow> resolvePath os baseDir requestedDir requestedFile = Inl e \<Longrightarrow>
   getFileContent config os requestedFile requestedDir = Inl (FileNotFound requestedFile)"
  by (auto simp: getFileContent_def dest: resolvePath_failure)

lemmas resolve_defs =
  resolvePath_def retryFullPath_def buildFilePaths_spec specCandidates_def
  subdirectories_def isFile_def Let_def

text \<open>
  Claim C5, as stated, at the request for \<open>notes.txt\<close>: the resolved path
  \<open>/srv/notes.txt\<close> holds no \<open>..\<close>, and the request fails with \<open>BadRequest\<close> all
  the same, at the test of the extension.
\<close>

theorem C5_counterexample:
  "resolvePath exOs ''/srv'' [] ''notes.txt'' = Inr ''/srv/notes.txt''
   \<and> \<not> contains ''/srv/notes.txt'' ''..''
   \<and> getFileContent (mainConfig ''8080'' ''./frontend/build'' True) exOs ''notes.txt'' []
       = Inl (UnsupportedFileType ''.txt'')
   \<and> status (UnsupportedFileType ''.txt'') = BadRequest"
  by (simp add: getFileContent_def serveFile_def resolve_defs mainConfig_def
      exOs_defs path_defs)

text \<open>
  Claim C5, amended: for every content or query request, after a candidate path
  resolves, the request fails at the traversal check (\<open>BadRequest\<close>, "Invalid file
  path") if and only if the string of the resolved path contains \<open>..\<close>; the check
  reads the resolved string only and comes after the resolution. (A query request
  reaches the resolution when its file and path parameters are not empty.)
\<close>

theorem C5_traversal_check:
  assumes "Getwd os = Some baseDir"
      and "resolvePath os baseDir requestedDir requestedFile = Inr filePath"
    shows "(getFileContent config os requestedFile requestedDir = Inl InvalidFilePath)
             = contains filePath ''..''
         \<and> (requestedFile \<noteq> [] \<and> jsonPath \<noteq> [] \<longrightarrow>
             (queryJSON os requestedFile jsonPath requestedDir = Inl InvalidFilePath)
               = contains filePath ''..'')
         \<and> status InvalidFilePath = BadRequest"
  using assms resolvePath_isFile[OF assms(2)]
  by (simp add: getFileContent_def queryJSON_def serveFile_InvalidFilePath
      queryFile_InvalidFilePath)

theorem C5_traversal_check_witness:
  "Getwd exOs = Some ''/srv''
   \<and> resolvePath exOs ''/srv'' [] ''a..md'' = Inr ''/srv/a..md''
   \<and> ''a..md'' \<noteq> [] \<and> ''x'' \<noteq> []
   \<and> contains ''/srv/a..md'' ''..''
   \<and> getFileContent (mainConfig ''8080'' ''./frontend/build'' True) exOs ''a..md'' []
       = Inl InvalidFilePath
   \<and> queryJSON exOs ''a..md'' ''x'' [] = Inl InvalidFilePath"
proof -
  have r: "resolvePath exOs ''/srv'' [] ''a..md'' = Inr ''/srv/a..md''"
    by (simp add: resolve_defs exOs_defs path_defs)
  have g: "Getwd exOs = Some ''/srv''"
    by (simp add: exOs_fields)
  show ?thesis
    using C5_traversal_check[OF g r,
        of "mainConfig ''8080'' ''./frontend/build'' True" "''x''"] g r
    by simp
qed

text \<open>
  The check is on the text of the path: the file \<open>/srv/a..md\<close> lies in the root and
  is refused (the witness above), and the file \<open>/outside.md\<close>, reached with the
  directory \<open>..\<close>, lies outside the root and is served, \<open>filepath.Join\<close> having
  removed the \<open>..\<close> from the string.
\<close>

lemma outside_root_is_served:
  "resolvePath exOs ''/srv'' ''..'' ''outside.md'' = Inr ''/outside.md''
   \<and> getFileContent (mainConfig ''8080'' ''./frontend/build'' True) exOs ''outside.md'' ''..''
       = Inr (Some ''text/plain'', ''[1,2,3]'')"
  by (simp add: getFileContent_def serveFile_def resolve_defs mainConfig_def contentType_def
      exOs_defs path_defs)

text \<open>
  Claim C8: for every query request whose file resolves to an existing regular file
  whose lower-cased extension is not \<open>.json\<close>, the request fails with
  \<open>BadRequest\<close>, whatever the path parameter.
\<close>

theorem C8_not_json:
  assumes "Getwd os = Some baseDir"
      and "resolvePath os baseDir requestedDir requestedFile = Inr filePath"
      and "toLower (Ext filePath) \<noteq> ''.json''"
    shows "failsWith (queryJSON os requestedFile jsonPath requestedDir) BadRequest"
proof -
  from resolvePath_isFile[OF assms(2)] obtain info
    where "Stat os filePath = StatOk info" and "\<not> statIsDir info"
    using isFile_Stat by blast
  then have "queryFile os filePath jsonPath = Inl InvalidFilePath
           \<or> queryFile os filePath jsonPath = Inl FileIsNotJSON"
    using assms(3) by (simp add: queryFile_def)
  then show ?thesis
    using assms(1,2) by (auto simp: queryJSON_def failsWith_def)
qed


theorem C8_not_json_witness:
  "Getwd exOs = Some ''/srv''
   \<and> resolvePath exOs ''/srv'' [] ''notes.txt'' = Inr ''/srv/notes.txt''
   \<and> toLower (Ext ''/srv/notes.txt'') \<noteq> ''.json''
   \<and> failsWith (queryJSON exOs ''notes.txt'' ''a.b[1]'' []) BadRequest"
proof -
  have r: "resolvePath exOs ''/srv'' [] ''notes.txt'' = Inr ''/srv/notes.txt''"
    by (simp add: resolve_defs exOs_defs path_defs)
  have g: "Getwd exOs = Some ''/srv''"
    by (simp add: exOs_fields)
  have e: "toLower (Ext ''/srv/notes.txt'') \<noteq> ''.json''"
    by (simp add: path_defs)
  show ?thesis
    using C8_not_json[OF g r e, of "''a.b[1]''"] g r e by simp
qed

text \<open>The extension is compared in lower case.\<close>

lemma upper_case_extension: "toLower (Ext ''/srv/Data.JSON'') = ''.json''"
  by code_simp

text \<open>A query of a JSON file that resolves is evaluated.\<close>

lemma query_data_json:
  "queryJSON exOs ''data.json'' ''[1]'' [] = Inr (JNumber 2)"
  by (simp add: queryJSON_def queryFile_def resolve_defs exOs_defs path_defs eval_defs)

section \<open>The path of a child of a rooted directory\<close>

text \<open>The pieces of a split hold no separator, and joining them gives the string back.\<close>

lemma splitFrom_no_sep_in: "l \<in> set (splitFrom sep cur s) \<Longrightarrow> sep \<notin> set cur \<Longrightarrow> sep \<notin> set l"
proof (induction s arbitrary: cur)
  case Nil
  then show ?case by simp
next
  case (Cons c cs)
  show ?case
  proof (cases "c = sep")
    case True
    with Cons.prems have "l = cur \<or> l \<in> set (splitFrom sep [] cs)" by simp
    with Cons.IH[of "[]"] Cons.prems(2) show ?thesis by auto
  next
    case False
    with Cons.prems have "l \<in> set (splitFrom sep (cur @ [c]) cs)" "sep \<notin> set (cur @ [c])" by auto
    then show ?thesis by (rule Cons.IH)
  qed
qed

lemma split_no_sep_in: "l \<in> set (split s sep) \<Longrightarrow> sep \<notin> set l"
  using splitFrom_no_sep_in[of l sep "[]" s] by (simp add: split_def)

lemma splitFrom_app: "splitFrom sep cur (a @ sep # b) = splitFrom sep cur a @ splitFrom sep [] b"
  by (induction a arbitrary: cur) auto

lemma split_app: "split (a @ sep # b) sep = split a sep @ split b sep"
  by (simp add: split_def splitFrom_app)

lemma splitFrom_joinWith:
  "es \<noteq> [] \<Longrightarrow> \<forall>e\<in>set es. sep \<notin> set e \<Longrightarrow> sep \<notin> set cur \<Longrightarrow>
   splitFrom sep cur (joinWith sep es) = (cur @ hd es) # tl es"
proof (induction sep es arbitrary: cur rule: joinWith.induct)
  case (1 sep)
  then show ?case by simp
next
  case (2 sep e)
  then show ?case by (simp add: splitFrom_no_sep)
next
  case (3 sep e f es)
  have "splitFrom sep cur (e @ sep # joinWith sep (f # es)) = (cur @ e) # splitFrom sep [] (joinWith sep (f # es))"
    using "3.prems" by (simp add: splitFrom_append)
  also have "splitFrom sep [] (joinWith sep (f # es)) = f # es"
    using "3.IH"[of "[]"] "3.prems" by simp
  finally show ?case by simp
qed

lemma split_joinWith:
  "es \<noteq> [] \<Longrightarrow> \<forall>e\<in>set es. sep \<notin> set e \<Longrightarrow> split (joinWith sep es) sep = es"
  by (simp add: split_def splitFrom_joinWith)

lemma joinWith_snoc:
  "joinWith sep (es @ [n]) = (if es = [] then n else joinWith sep es @ sep # n)"
  by (induction sep es rule: joinWith.induct) auto

text \<open>Cleaning reads a path in pieces, and leaves valid names of a rooted path alone.\<close>

lemma cleanElems_append:
  "cleanElems rooted out (es @ fs) = cleanElems rooted (cleanElems rooted out es) fs"
  by (induction es arbitrary: out) auto

lemma cleanElems_valid:
  "\<forall>e\<in>set es. validName e \<Longrightarrow> cleanElems rooted out es = out @ es"
  by (induction es arbitrary: out) (auto simp: validName_def)

lemma cleanElems_rooted_valid:
  "\<forall>e\<in>set out. validName e \<Longrightarrow> \<forall>e\<in>set es. CHR ''/'' \<notin> set e \<Longrightarrow>
   \<forall>e\<in>set (cleanElems True out es). validName e"
proof (induction es arbitrary: out)
  case Nil
  then show ?case by simp
next
  case (Cons e es)
  have 1: "\<forall>e\<in>set (butlast out). validName e" using Cons.prems(1) by (auto dest: in_set_butlastD)
  have 2: "validName e \<Longrightarrow> \<forall>x\<in>set (out @ [e]). validName x" using Cons.prems(1) by simp
  have 3: "\<forall>e\<in>set es. CHR ''/'' \<notin> set e" using Cons.prems(2) by simp
  have v: "e \<noteq> [] \<Longrightarrow> e \<noteq> ''.'' \<Longrightarrow> e \<noteq> ''..'' \<Longrightarrow> validName e"
    using Cons.prems(2) by (simp add: validName_def)
  show ?case
    unfolding cleanElems.simps
    using Cons.IH[OF 1 3] Cons.IH[OF 2 3] Cons.IH[OF Cons.prems(1) 3] v
    by (simp only: split: if_split) blast
qed


lemma hasPrefix_slash: "hasPrefix p ''/'' = (\<exists>r. p = CHR ''/'' # r)"
  by (cases p) auto


lemma rooted_elems_valid: "\<forall>e\<in>set (cleanElems True [] (split d (CHR ''/''))). validName e"
  by (rule cleanElems_rooted_valid) (auto dest: split_no_sep_in)

lemma Clean_rooted:
  "IsAbs d \<Longrightarrow> Clean d = CHR ''/'' # joinWith (CHR ''/'') (cleanElems True [] (split d (CHR ''/'')))"
  by (simp add: Clean_def IsAbs_def)

lemma split_canonical:
  assumes "\<forall>e\<in>set xs. validName e"
  shows "split (CHR ''/'' # joinWith (CHR ''/'') xs) (CHR ''/'') = [] # (if xs = [] then [''''] else xs)"
proof (cases "xs = []")
  case True
  then show ?thesis by (simp add: split_def)
next
  case False
  have "\<forall>e\<in>set xs. CHR ''/'' \<notin> set e" using assms by (simp add: validName_def)
  with False have "split (joinWith (CHR ''/'') xs) (CHR ''/'') = xs" by (rule split_joinWith)
  with False show ?thesis by (simp add: split_def)
qed

lemma Clean_canonical:
  assumes "\<forall>e\<in>set xs. validName e"
  shows "Clean (CHR ''/'' # joinWith (CHR ''/'') xs) = CHR ''/'' # joinWith (CHR ''/'') xs"
  using assms by (simp add: Clean_def split_canonical cleanElems_valid)

lemma pathElems_canonical:
  assumes "\<forall>e\<in>set xs. validName e"
  shows "pathElems (CHR ''/'' # joinWith (CHR ''/'') xs) = [] # xs"
proof (cases "xs = []")
  case True
  then show ?thesis by (simp add: pathElems_def split_def)
next
  case False
  then have "last xs \<in> set xs" by simp
  with assms have "last xs \<noteq> []" by (auto simp: validName_def)
  with False assms show ?thesis by (simp add: pathElems_def split_canonical)
qed

lemma dropCommon_prefix: "dropCommon xs (xs @ y # ys) = ([], y # ys)"
  by (induction xs) auto

lemma Join_child:
  assumes "IsAbs d" and "validName n"
  shows "Join [d, n] =
         CHR ''/'' # joinWith (CHR ''/'') (cleanElems True [] (split d (CHR ''/'')) @ [n])"
proof -
  from assms(1) obtain r where d: "d = CHR ''/'' # r" by (auto simp: IsAbs_def hasPrefix_slash)
  have "Join [d, n] = Clean (d @ CHR ''/'' # n)" by (simp add: Join_def d)
  also have "\<dots> = CHR ''/'' # joinWith (CHR ''/'')
                      (cleanElems True [] (split (d @ CHR ''/'' # n) (CHR ''/'')))"
    by (simp add: Clean_def d)
  also have "split (d @ CHR ''/'' # n) (CHR ''/'') = split d (CHR ''/'') @ [n]"
    using assms(2) by (simp add: split_app split_no_sep validName_def)
  also have "cleanElems True [] (split d (CHR ''/'') @ [n]) =
             cleanElems True [] (split d (CHR ''/'')) @ [n]"
  proof -
    have "cleanElems True out [n] = out @ [n]" for out
      using assms(2) by (intro cleanElems_valid) simp
    then show ?thesis by (simp only: cleanElems_append)
  qed
  finally show ?thesis .
qed


lemma Rel_child:
  assumes "IsAbs d" and "validName n"
  shows "Rel d (Join [d, n]) = Some n"
proof -
  let ?out = "cleanElems True [] (split d (CHR ''/''))"
  let ?base = "CHR ''/'' # joinWith (CHR ''/'') ?out"
  let ?targ = "CHR ''/'' # joinWith (CHR ''/'') (?out @ [n])"
  have v: "\<forall>e\<in>set ?out. validName e" by (rule rooted_elems_valid)
  then have v': "\<forall>e\<in>set (?out @ [n]). validName e" using assms(2) by simp
  have base: "Clean d = ?base" using assms(1) by (rule Clean_rooted)
  have targ: "Clean (Join [d, n]) = ?targ"
    using v' by (simp only: Join_child[OF assms] Clean_canonical)
  have ne: "?targ \<noteq> ?base"
    using assms(2) by (auto simp: joinWith_snoc validName_def)
  have eb: "pathElems ?base = [] # ?out" using v by (rule pathElems_canonical)
  have et: "pathElems ?targ = [] # ?out @ [n]" using v' by (simp only: pathElems_canonical)
  have dc: "dropCommon ([] # ?out) ([] # ?out @ [n]) = ([], [n])"
    using dropCommon_prefix[of "[] # ?out" n "[]"] by simp
  show ?thesis
    unfolding Rel_def base targ Let_def using ne
    by (simp add: eb et dc del: dropCommon.simps)
qed

lemma listRoot_IsAbs: "IsAbs baseDir \<Longrightarrow> IsAbs (listRoot baseDir requestedDir)"
  by (auto simp: listRoot_def IsAbs_def Join_def Clean_def hasPrefix_slash)

section \<open>Directory listing: filter, order and relative paths\<close>

text \<open>The order of Go strings is a strict linear order.\<close>

lemma strLess_irrefl: "\<not> strLess s s"
  by (induction s) auto

lemma strLess_trans: "strLess a b \<Longrightarrow> strLess b c \<Longrightarrow> strLess a c"
proof (induction a b arbitrary: c rule: strLess.induct)
  case 1
  then show ?case by simp
next
  case (2 d ds)
  then show ?case by (cases c) auto
next
  case (3 c' cs)
  then show ?case by simp
next
  case (4 x xs y ys)
  then show ?case by (cases c) auto
qed

lemma strLess_total: "strLess a b \<or> a = b \<or> strLess b a"
proof (induction a b rule: strLess.induct)
  case (4 c cs d ds)
  have "(of_char c :: nat) = of_char d \<Longrightarrow> c = d" by simp
  with 4 show ?case by (auto simp: not_less le_less)
qed auto

lemma strLess_asym: "strLess a b \<Longrightarrow> \<not> strLess b a"
  using strLess_trans strLess_irrefl by blast

lemma not_fileLess: "(\<not> fileLess b a) = listedBefore a b"
  using strLess_total[of "Name a" "Name b"] strLess_asym[of "Name a" "Name b"]
    strLess_irrefl[of "Name a"]
  by (auto simp: fileLess_def listedBefore_def)

lemma listedBefore_trans: "listedBefore a b \<Longrightarrow> listedBefore b c \<Longrightarrow> listedBefore a c"
  using strLess_trans[of "Name a" "Name b" "Name c"]
  by (auto simp: listedBefore_def)

lemma fileLess_listedBefore: "fileLess a b \<Longrightarrow> listedBefore a b"
  by (auto simp: fileLess_def listedBefore_def split: if_splits)

text \<open>Sorting by insertion keeps the elements and orders them.\<close>

lemma set_insertSlice: "set (insertSlice lt x ys) = insert x (set ys)"
  by (induction ys) auto

lemma set_sortSlice: "set (sortSlice lt xs) = set xs"
  by (induction xs) (auto simp: set_insertSlice)

lemma length_insertSlice: "length (insertSlice lt x ys) = Suc (length ys)"
  by (induction ys) auto

lemma length_sortSlice: "length (sortSlice lt xs) = length xs"
  by (induction xs) (auto simp: length_insertSlice)

lemma sorted_insertSlice:
  "sorted_wrt listedBefore ys \<Longrightarrow> sorted_wrt listedBefore (insertSlice fileLess x ys)"
proof (induction ys)
  case Nil
  then show ?case by simp
next
  case (Cons y ys)
  show ?case
  proof (cases "fileLess y x")
    case True
    then have "listedBefore y x" by (rule fileLess_listedBefore)
    with True Cons show ?thesis by (auto simp: set_insertSlice)
  next
    case False
    then have xy: "listedBefore x y" by (simp add: not_fileLess)
    have "listedBefore x z" if "z \<in> set ys" for z
      using xy Cons.prems that listedBefore_trans by auto
    with False xy Cons.prems show ?thesis by auto
  qed
qed

lemma sorted_sortSlice: "sorted_wrt listedBefore (sortSlice fileLess xs)"
  by (induction xs) (auto simp: sorted_insertSlice)

text \<open>
  \<open>sort.Slice\<close> may use any method: with the names of one directory, which differ,
  every arrangement without a pair out of order is the one that insertion gives.
\<close>

lemma mset_insertSlice: "mset (insertSlice lt x ys) = add_mset x (mset ys)"
  by (induction ys) auto

lemma mset_sortSlice: "mset (sortSlice lt xs) = mset xs"
  by (induction xs) (auto simp: mset_insertSlice)

lemma sorted_wrt_unique:
  assumes "sorted_wrt R xs" and "sorted_wrt R ys" and "mset xs = mset ys"
      and "\<And>a b. a \<in> set xs \<Longrightarrow> b \<in> set xs \<Longrightarrow> R a b \<Longrightarrow> R b a \<Longrightarrow> a = b"
    shows "xs = ys"
  using assms
proof (induction xs arbitrary: ys)
  case Nil
  then show ?case by simp
next
  case (Cons x xs)
  from Cons.prems(3) obtain y ys' where ys: "ys = y # ys'"
    by (cases ys) auto
  have sets: "set (x # xs) = set (y # ys')"
    using Cons.prems(3) ys by (metis set_mset_mset)
  have "x = y"
  proof (rule ccontr)
    assume ne: "x \<noteq> y"
    with sets have mem: "y \<in> set xs" "x \<in> set ys'" by auto
    with Cons.prems(1,2) ys have "R x y" "R y x" by auto
    moreover have "x \<in> set (x # xs)" "y \<in> set (x # xs)" using mem(1) by simp_all
    ultimately have "x = y" by (rule Cons.prems(4)[rotated 2])
    with ne show False by simp
  qed
  with Cons.prems ys have "xs = ys'"
    by (intro Cons.IH) auto
  with \<open>x = y\<close> ys show ?case by simp
qed

lemma any_sort_is_sortSlice:
  assumes "mset ys = mset xs" and "sorted_wrt (\<lambda>a b. \<not> fileLess b a) ys"
      and "inj_on (\<lambda>f. (IsDir f, Name f)) (set xs)"
    shows "ys = sortSlice fileLess xs"
proof (rule sorted_wrt_unique[where R = listedBefore])
  show "sorted_wrt listedBefore ys" using assms(2) by (simp add: not_fileLess)
  show "sorted_wrt listedBefore (sortSlice fileLess xs)" by (rule sorted_sortSlice)
  show "mset ys = mset (sortSlice fileLess xs)" using assms(1) by (simp add: mset_sortSlice)
next
  fix a b
  assume "a \<in> set ys" "b \<in> set ys" and ab: "listedBefore a b" "listedBefore b a"
  then have "a \<in> set xs" "b \<in> set xs" using assms(1) by (metis set_mset_mset)+
  moreover from ab have "IsDir a = IsDir b \<and> Name a = Name b"
    using strLess_asym[of "Name a" "Name b"] by (auto simp: listedBefore_def)
  ultimately show "a = b" using assms(3) by (auto dest: inj_onD)
qed

text \<open>What the loop over the entries yields.\<close>

lemma set_listEntries:
  "set (listEntries config os rootDir entries) =
   {f. \<exists>entry\<in>set entries. listEntry config os rootDir entry = Some f}"
  by (induction entries) (auto split: option.splits)

lemma listFiles_Inr:
  assumes "listFiles config os requestedDir = Inr files"
  obtains baseDir entries where "Getwd os = Some baseDir"
    and "ReadDir os (listRoot baseDir requestedDir) = Some entries"
    and "files = sortSlice fileLess (listEntries config os (listRoot baseDir requestedDir) entries)"
  using assms
  by (auto simp: listFiles_def Let_def split: option.splits statResult.splits if_splits)

lemma hasRelevantFiles_iff:
  "hasRelevantFiles config subEntries =
   list_ex (\<lambda>subEntry. \<not> entryIsDir subEntry \<and>
              toLower (Ext (entryName subEntry)) \<in> set (AllowedExts config)) subEntries"
proof -
  have a: "isAllowedExt exts ext = (ext \<in> set exts)" for exts ext
    by (induction exts) auto
  show ?thesis by (induction subEntries) (auto simp: a)
qed

lemma scan_iff:
  "(case ReadDir os dir of Some subEntries \<Rightarrow> hasRelevantFiles config subEntries | None \<Rightarrow> False)
   = shallowScanFinds config os dir"
  by (simp add: shallowScanFinds_def hasRelevantFiles_iff split: option.splits)


text \<open>The rounds of the loop, for a directory and for a file.\<close>

lemma listEntry_Some_name:
  "listEntry config os rootDir entry = Some f \<Longrightarrow>
   Name f = entryName entry \<and> IsDir f = entryIsDir entry"
  by (auto simp: listEntry_def Let_def split: if_splits option.splits)

lemma listEntry_directory:
  assumes "IsAbs rootDir" and "validName (entryName entry)" and "entryIsDir entry"
  shows "(listEntry config os rootDir entry \<noteq> None) =
         (\<not> passedOver config rootDir entry \<and>
          shallowScanFinds config os (Join [rootDir, entryName entry]))"
  using assms Rel_child[OF assms(1,2)]
  by (auto simp: listEntry_def Let_def passedOver_def scan_iff split: option.splits)

lemma listEntry_scan:
  "listEntry config os rootDir entry = Some f \<Longrightarrow> entryIsDir entry \<Longrightarrow>
   shallowScanFinds config os (Join [rootDir, entryName entry])"
  by (auto simp: listEntry_def Let_def scan_iff[symmetric] split: if_splits option.splits)

lemma onlySubdirectories_scan:
  "onlySubdirectories os dir \<Longrightarrow> \<not> shallowScanFinds config os dir"
  by (auto simp: onlySubdirectories_def shallowScanFinds_def list_ex_iff list_all_iff
      split: option.splits)

lemma listsDirectory_iff:
  assumes "distinct (map entryName entries)" and "entry \<in> set entries" and "entryIsDir entry"
  shows "listsDirectory (sortSlice fileLess (listEntries config os rootDir entries)) (entryName entry)
         = (listEntry config os rootDir entry \<noteq> None)"
proof
  assume "listsDirectory (sortSlice fileLess (listEntries config os rootDir entries)) (entryName entry)"
  then obtain f entry' where f: "Name f = entryName entry" "entry' \<in> set entries"
      "listEntry config os rootDir entry' = Some f"
    by (auto simp: listsDirectory_def list_ex_iff set_sortSlice set_listEntries)
  then have "entryName entry' = entryName entry" by (auto dest: listEntry_Some_name)
  moreover have "inj_on entryName (set entries)" using assms(1) by (simp add: distinct_map)
  ultimately have "entry' = entry" using f(2) assms(2) by (auto dest: inj_onD)
  with f show "listEntry config os rootDir entry \<noteq> None" by simp
next
  assume "listEntry config os rootDir entry \<noteq> None"
  then obtain f where f: "listEntry config os rootDir entry = Some f" by auto
  then have "Name f = entryName entry \<and> IsDir f" using assms(3) by (auto dest: listEntry_Some_name)
  moreover have "f \<in> set (sortSlice fileLess (listEntries config os rootDir entries))"
    using f assms(2) by (auto simp: set_sortSlice set_listEntries)
  ultimately show "listsDirectory (sortSlice fileLess (listEntries config os rootDir entries)) (entryName entry)"
    by (auto simp: listsDirectory_def list_ex_iff)
qed

text \<open>
  Claim C6, amended: for every directory listing, an immediate subdirectory is
  included in the result if and only if it is not passed over (as a hidden name when
  hidden names are ignored, as a build or dependency directory, or because its
  \<open>Info()\<close> fails) and the shallow one-level scan of it finds at least one entry that
  is not a directory and whose lower-cased extension is allowed; a subdirectory that
  holds only further subdirectories is excluded, whatever lies below them. The
  working directory is an absolute path, and the names \<open>os.ReadDir\<close> gives are
  distinct names of a directory.
\<close>

theorem C6_subdirectory_listed:
  assumes "Getwd os = Some baseDir" and "IsAbs baseDir"
      and "listFiles config os requestedDir = Inr files"
      and "ReadDir os (listRoot baseDir requestedDir) = Some entries"
      and "distinct (map entryName entries)"
      and "entry \<in> set entries" and "entryIsDir entry" and "validName (entryName entry)"
    shows "listsDirectory files (entryName entry) =
             (\<not> passedOver config (listRoot baseDir requestedDir) entry \<and>
              shallowScanFinds config os (Join [listRoot baseDir requestedDir, entryName entry]))
         \<and> (onlySubdirectories os (Join [listRoot baseDir requestedDir, entryName entry])
              \<longrightarrow> \<not> listsDirectory files (entryName entry))"
proof -
  let ?root = "listRoot baseDir requestedDir"
  from assms(3) obtain baseDir' entries' where
    "Getwd os = Some baseDir'" "ReadDir os (listRoot baseDir' requestedDir) = Some entries'"
    "files = sortSlice fileLess (listEntries config os (listRoot baseDir' requestedDir) entries')"
    by (rule listFiles_Inr)
  with assms(1,4) have files: "files = sortSlice fileLess (listEntries config os ?root entries)"
    by simp
  have abs: "IsAbs ?root" using assms(2) by (rule listRoot_IsAbs)
  have "listsDirectory files (entryName entry) = (listEntry config os ?root entry \<noteq> None)"
    unfolding files using assms(5,6,7) by (rule listsDirectory_iff)
  also have "\<dots> = (\<not> passedOver config ?root entry \<and>
                   shallowScanFinds config os (Join [?root, entryName entry]))"
    using abs assms(8,7) by (rule listEntry_directory)
  finally show ?thesis using onlySubdirectories_scan by blast
qed


lemmas list_defs =
  listFiles_def listRoot_def listEntry_def isBuildDir_def Rel_def pathElems_def
  fileLess_def mainConfig_def IsAbs_def Let_def

lemmas ex_list_defs =
  exConfig_def srvEntries_def listed_def srvListing_def notesListing_def

lemma ex_listing_srv: "listFiles exConfig exOs [] = Inr srvListing"
  by (simp add: ex_list_defs list_defs exOs_defs path_defs)

lemma ex_listing_notes: "listFiles exConfig exOs ''notes'' = Inr notesListing"
  by (simp add: ex_list_defs list_defs exOs_defs path_defs)

lemma ex_srv_entries:
  "ReadDir exOs (listRoot ''/srv'' []) = Some srvEntries"
  "distinct (map entryName srvEntries)"
  "list_all (\<lambda>entry. validName (entryName entry)) srvEntries"
  by (simp_all add: srvEntries_def listRoot_def exOs_defs validName_def)

text \<open>
  Claim C6, as stated, at the listing of \<open>/srv\<close>: the shallow scan of the
  subdirectory \<open>build\<close> finds the file \<open>a.md\<close>, and the listing does not hold
  \<open>build\<close>, which the test for build directories passes over.
\<close>

theorem C6_counterexample:
  "subdirEntry ''build'' \<in> set srvEntries
   \<and> shallowScanFinds exConfig exOs (Join [''/srv'', ''build''])
   \<and> listFiles exConfig exOs [] = Inr srvListing
   \<and> \<not> listsDirectory srvListing ''build''"
proof -
  have "shallowScanFinds exConfig exOs (Join [''/srv'', ''build''])"
    by (simp add: shallowScanFinds_def exConfig_def mainConfig_def exOs_defs path_defs)
  moreover have "\<not> listsDirectory srvListing ''build''"
    by (simp add: listsDirectory_def srvListing_def listed_def)
  ultimately show ?thesis
    by (simp add: ex_listing_srv srvEntries_def)
qed

theorem C6_subdirectory_listed_witness:
  "Getwd exOs = Some ''/srv'' \<and> IsAbs ''/srv''
   \<and> listFiles exConfig exOs [] = Inr srvListing
   \<and> ReadDir exOs (listRoot ''/srv'' []) = Some srvEntries
   \<and> distinct (map entryName srvEntries)
   \<and> subdirEntry ''docs'' \<in> set srvEntries \<and> entryIsDir (subdirEntry ''docs'')
   \<and> validName (entryName (subdirEntry ''docs''))
   \<and> subdirEntry ''empty'' \<in> set srvEntries \<and> entryIsDir (subdirEntry ''empty'')
   \<and> validName (entryName (subdirEntry ''empty''))
   \<and> listsDirectory srvListing ''docs''
   \<and> \<not> passedOver exConfig ''/srv'' (subdirEntry ''docs'')
   \<and> shallowScanFinds exConfig exOs ''/srv/docs''
   \<and> onlySubdirectories exOs ''/srv/empty''
   \<and> \<not> listsDirectory srvListing ''empty''"
proof -
  have g: "Getwd exOs = Some ''/srv''" by (simp add: exOs_fields)
  have a: "IsAbs ''/srv''" by (simp add: IsAbs_def)
  have docs: "subdirEntry ''docs'' \<in> set srvEntries" "entryIsDir (subdirEntry ''docs'')"
      "validName (entryName (subdirEntry ''docs''))"
    by (simp_all add: srvEntries_def subdirEntry_def validName_def)
  have empty: "subdirEntry ''empty'' \<in> set srvEntries" "entryIsDir (subdirEntry ''empty'')"
      "validName (entryName (subdirEntry ''empty''))"
    by (simp_all add: srvEntries_def subdirEntry_def validName_def)
  have only: "onlySubdirectories exOs ''/srv/empty''"
    by (simp add: onlySubdirectories_def exOs_defs)
  have j: "Join [''/srv'', ''docs''] = ''/srv/docs''"
      "Join [''/srv'', ''empty''] = ''/srv/empty''" "listRoot ''/srv'' [] = ''/srv''"
    by (simp_all add: listRoot_def path_defs)
  have l: "listsDirectory srvListing ''docs''"
    by (simp add: listsDirectory_def srvListing_def listed_def)
  show ?thesis
    using C6_subdirectory_listed[OF g a ex_listing_srv ex_srv_entries(1,2) docs]
      C6_subdirectory_listed[OF g a ex_listing_srv ex_srv_entries(1,2) empty]
      g a ex_srv_entries docs empty only l
    by (auto simp add: j ex_listing_srv subdirEntry_def)
qed





lemma listEntry_file:
  assumes "IsAbs rootDir" and "validName (entryName entry)" and "\<not> entryIsDir entry"
      and "entryInfo entry = Some info"
    shows "listEntry config os rootDir entry =
           (if (IgnoreHidden config \<and> hasPrefix (entryName entry) ''.'') \<or>
               \<not> isAllowedExt (AllowedExts config) (toLower (Ext (entryName entry)))
            then None
            else Some \<lparr>Name = entryName entry, Path = entryName entry, IsDir = False,
                       Size = statSize info, ModTime = statModTime info\<rparr>)"
  using assms Rel_child[OF assms(1,2)]
  by (simp add: listEntry_def Let_def isBuildDir_def)

text \<open>The names listed for a directory of files are the kept ones among its names.\<close>

lemma listEntries_files:
  assumes "IsAbs rootDir"
      and "\<forall>entry\<in>set entries. validName (entryName entry) \<and> \<not> entryIsDir entry \<and>
             entryInfo entry \<noteq> None"
    shows "map Name (listEntries config os rootDir entries) =
             filter (keptName config) (map entryName entries)
         \<and> (\<forall>f\<in>set (listEntries config os rootDir entries). \<not> IsDir f)"
  using assms(2)
proof (induction entries)
  case Nil
  then show ?case by simp
next
  case (Cons entry entries)
  then obtain info where e: "validName (entryName entry)" "\<not> entryIsDir entry"
      "entryInfo entry = Some info"
    by auto
  from Cons have IH: "map Name (listEntries config os rootDir entries) =
             filter (keptName config) (map entryName entries)
         \<and> (\<forall>f\<in>set (listEntries config os rootDir entries). \<not> IsDir f)"
    by simp
  have "listEntry config os rootDir entry =
          (if keptName config (entryName entry)
           then Some \<lparr>Name = entryName entry, Path = entryName entry, IsDir = False,
                      Size = statSize info, ModTime = statModTime info\<rparr>
           else None)"
    by (simp add: listEntry_file[OF assms(1) e] keptName_def)
  with IH show ?case by simp
qed

lemma nameBefore_antisym: "nameBefore a b \<Longrightarrow> nameBefore b a \<Longrightarrow> a = b"
  using strLess_asym[of a b] by (auto simp: nameBefore_def)

lemma files_sorted_by_name:
  assumes "sorted_wrt listedBefore files" and "\<forall>f\<in>set files. \<not> IsDir f"
  shows "sorted_wrt nameBefore (map Name files)"
proof -
  have "sorted_wrt (\<lambda>a b. nameBefore (Name a) (Name b)) files"
    using assms(1)
  proof (rule sorted_wrt_mono_rel[rotated])
    fix a b
    assume "a \<in> set files" "b \<in> set files" "listedBefore a b"
    with assms(2) show "nameBefore (Name a) (Name b)"
      by (auto simp: listedBefore_def nameBefore_def)
  qed
  then show ?thesis by (simp add: sorted_wrt_map)
qed

lemma four_files_listing:
  assumes "IsAbs rootDir" and "IgnoreHidden config"
      and "AllowedExts config = [''.md'', ''.json'']"
      and "mset (map entryName entries) = mset [''.hidden.md'', ''readme.md'', ''Z.json'', ''a.md'']"
      and "list_all (\<lambda>entry. \<not> entryIsDir entry \<and> entryInfo entry \<noteq> None) entries"
    shows "map Name (sortSlice fileLess (listEntries config os rootDir entries)) =
           [''Z.json'', ''a.md'', ''readme.md'']"
proof -
  let ?names = "[''.hidden.md'', ''readme.md'', ''Z.json'', ''a.md'']"
  let ?collected = "listEntries config os rootDir entries"
  let ?files = "sortSlice fileLess ?collected"
  have "set (map entryName entries) = set ?names"
    using assms(4) by (metis set_mset_mset)
  then have "\<forall>entry\<in>set entries. entryName entry \<in> set ?names" by auto
  then have "\<forall>entry\<in>set entries. validName (entryName entry)"
    by (auto simp: validName_def)
  with assms(5) have ok: "\<forall>entry\<in>set entries. validName (entryName entry) \<and>
      \<not> entryIsDir entry \<and> entryInfo entry \<noteq> None"
    by (simp add: list_all_iff)
  note coll = listEntries_files[OF assms(1) ok, of config os]
  have kept: "filter (keptName config) ?names = [''readme.md'', ''Z.json'', ''a.md'']"
    by (simp add: keptName_def assms(2,3) path_defs)
  have "mset (map Name ?files) = image_mset Name (mset ?collected)"
    by (simp add: mset_sortSlice)
  also have "\<dots> = mset (filter (keptName config) (map entryName entries))"
    using coll by (metis mset_map)
  also have "\<dots> = filter_mset (keptName config) (mset ?names)"
    using assms(4) by (simp only: mset_filter)
  also have "\<dots> = mset [''readme.md'', ''Z.json'', ''a.md'']"
    using kept by (metis mset_filter)
  also have "\<dots> = mset [''Z.json'', ''a.md'', ''readme.md'']"
    by simp
  finally have m: "mset (map Name ?files) = mset [''Z.json'', ''a.md'', ''readme.md'']" .
  have "\<forall>f\<in>set ?files. \<not> IsDir f" using coll by (simp add: set_sortSlice)
  with sorted_sortSlice have s1: "sorted_wrt nameBefore (map Name ?files)"
    by (rule files_sorted_by_name)
  have s2: "sorted_wrt nameBefore [''Z.json'', ''a.md'', ''readme.md'']"
    by (simp add: nameBefore_def)
  show ?thesis
    using s1 s2 m by (rule sorted_wrt_unique) (rule nameBefore_antisym)
qed

text \<open>
  Claim C7: for every directory listing, the entries returned are those the loop
  collected, ordered with directories before files and, within each group, ascending
  by name in the order of the bytes (uppercase before lowercase); with
  \<open>IgnoreHidden\<close> set and the extensions \<open>.md\<close> and \<open>.json\<close> allowed, a directory
  holding the files \<open>.hidden.md\<close>, \<open>readme.md\<close>, \<open>Z.json\<close> and \<open>a.md\<close>, in
  whatever order \<open>os.ReadDir\<close> gives them, lists exactly \<open>Z.json\<close>, \<open>a.md\<close>,
  \<open>readme.md\<close> in that order.
\<close>

theorem C7_listing_order:
  assumes "listFiles config os requestedDir = Inr files"
  shows "sorted_wrt listedBefore files
       \<and> (Getwd os = Some baseDir \<and> ReadDir os (listRoot baseDir requestedDir) = Some entries
          \<longrightarrow> mset files = mset (listEntries config os (listRoot baseDir requestedDir) entries))
       \<and> (Getwd os = Some baseDir \<and> IsAbs baseDir \<and> IgnoreHidden config
           \<and> AllowedExts config = [''.md'', ''.json'']
           \<and> holdsFiles os (listRoot baseDir requestedDir)
                [''.hidden.md'', ''readme.md'', ''Z.json'', ''a.md'']
          \<longrightarrow> map Name files = [''Z.json'', ''a.md'', ''readme.md''])"
proof -
  from assms obtain baseDir' entries' where l:
    "Getwd os = Some baseDir'" "ReadDir os (listRoot baseDir' requestedDir) = Some entries'"
    "files = sortSlice fileLess (listEntries config os (listRoot baseDir' requestedDir) entries')"
    by (rule listFiles_Inr)
  have "sorted_wrt listedBefore files"
    unfolding l(3) by (rule sorted_sortSlice)
  moreover have "mset files = mset (listEntries config os (listRoot baseDir requestedDir) entries)"
    if "Getwd os = Some baseDir" "ReadDir os (listRoot baseDir requestedDir) = Some entries"
    using that l by (simp add: mset_sortSlice)
  moreover have "map Name files = [''Z.json'', ''a.md'', ''readme.md'']"
    if h: "Getwd os = Some baseDir" "IsAbs baseDir" "IgnoreHidden config"
      "AllowedExts config = [''.md'', ''.json'']"
      "holdsFiles os (listRoot baseDir requestedDir)
         [''.hidden.md'', ''readme.md'', ''Z.json'', ''a.md'']"
  proof -
    from h(1) l(1) have b: "baseDir' = baseDir" by simp
    from h(5) l(2) b have
      "mset (map entryName entries') = mset [''.hidden.md'', ''readme.md'', ''Z.json'', ''a.md'']"
      "list_all (\<lambda>entry. \<not> entryIsDir entry \<and> entryInfo entry \<noteq> None) entries'"
      by (simp_all add: holdsFiles_def)
    with listRoot_IsAbs[OF h(2)] h(3,4) show ?thesis
      unfolding l(3) b by (rule four_files_listing)
  qed
  ultimately show ?thesis by blast
qed

text \<open>
  The witness is the directory \<open>/srv/notes\<close>, whose entries \<open>os.ReadDir\<close> gives
  sorted by name: \<open>.hidden.md\<close>, \<open>Z.json\<close>, \<open>a.md\<close>, \<open>readme.md\<close>.
\<close>

theorem C7_listing_order_witness:
  "listFiles exConfig exOs ''notes'' = Inr notesListing
   \<and> Getwd exOs = Some ''/srv'' \<and> IsAbs ''/srv'' \<and> IgnoreHidden exConfig
   \<and> AllowedExts exConfig = [''.md'', ''.json'']
   \<and> ReadDir exOs (listRoot ''/srv'' ''notes'') =
       Some [fileEntry ''.hidden.md'', fileEntry ''Z.json'', fileEntry ''a.md'',
             fileEntry ''readme.md'']
   \<and> holdsFiles exOs (listRoot ''/srv'' ''notes'')
        [''.hidden.md'', ''readme.md'', ''Z.json'', ''a.md'']
   \<and> sorted_wrt listedBefore notesListing
   \<and> mset notesListing =
       mset (listEntries exConfig exOs (listRoot ''/srv'' ''notes'')
              [fileEntry ''.hidden.md'', fileEntry ''Z.json'', fileEntry ''a.md'',
               fileEntry ''readme.md''])
   \<and> map Name notesListing = [''Z.json'', ''a.md'', ''readme.md'']"
proof -
  have r: "ReadDir exOs (listRoot ''/srv'' ''notes'') =
       Some [fileEntry ''.hidden.md'', fileEntry ''Z.json'', fileEntry ''a.md'',
             fileEntry ''readme.md'']"
    by (simp add: exOs_fields exDirs_def listRoot_def IsAbs_def path_defs)
  have h: "Getwd exOs = Some ''/srv''" "IsAbs ''/srv''" "IgnoreHidden exConfig"
      "AllowedExts exConfig = [''.md'', ''.json'']"
    by (simp_all add: exOs_fields IsAbs_def exConfig_def mainConfig_def)
  have hf: "holdsFiles exOs (listRoot ''/srv'' ''notes'')
         [''.hidden.md'', ''readme.md'', ''Z.json'', ''a.md'']"
    by (simp add: holdsFiles_def r fileEntry_def)
  show ?thesis
    using C7_listing_order[OF ex_listing_notes, of "''/srv''"
        "[fileEntry ''.hidden.md'', fileEntry ''Z.json'', fileEntry ''a.md'',
          fileEntry ''readme.md'']"] h r hf ex_listing_notes
    by simp
qed


text \<open>
  The listing looks at names only where it tests for hidden names and extensions:
  the file \<open>a..md\<close> is listed, and the content handler refuses it at its traversal
  check.
\<close>

lemma listed_and_refused:
  "listed ''a..md'' False 7 \<in> set srvListing
   \<and> getFileContent exConfig exOs ''a..md'' [] = Inl InvalidFilePath"
  by (simp add: srvListing_def getFileContent_def serveFile_def resolve_defs exOs_defs path_defs)

section \<open>The pattern as modelled\<close>

text \<open>
  What a match is: the key, an opening bracket, digits, a closing bracket and the
  remainder make up the line, and the remainder holds no further bracketed number.
\<close>

lemma bracketAt_Some:
  "bracketAt s = Some (ds, rest) \<Longrightarrow>
   s = CHR ''['' # ds @ CHR '']'' # rest \<and> ds \<noteq> [] \<and> (\<forall>c\<in>set ds. isDigit c)"
proof -
  assume a: "bracketAt s = Some (ds, rest)"
  then obtain cs where s: "s = CHR ''['' # cs"
    by (auto simp: bracketAt_def split: list.splits if_splits)
  with a have ds: "ds = takeWhile isDigit cs" "ds \<noteq> []"
    and r: "dropWhile isDigit cs = CHR '']'' # rest"
    by (auto simp: bracketAt_def Let_def split: list.splits if_splits)
  have "cs = takeWhile isDigit cs @ dropWhile isDigit cs" by simp
  with r ds(1) have "cs = ds @ CHR '']'' # rest" by simp
  moreover have "\<forall>c\<in>set ds. isDigit c" unfolding ds(1) by (auto dest: set_takeWhileD)
  ultimately show ?thesis using s ds(2) by simp
qed

lemma matchLine_None_pre: "matchLine pre s = None \<Longrightarrow> matchLine pre' s = None"
  by (induction s arbitrary: pre pre') (auto split: option.splits)

lemma matchLine_None_append: "matchLine pre (x @ y) = None \<Longrightarrow> matchLine pre' y = None"
  by (induction x arbitrary: pre) (auto split: option.splits intro: matchLine_None_pre)

lemma matchLine_Some:
  "matchLine pre s = Some (objKey, idxStr, restPath) \<Longrightarrow>
   \<exists>a. objKey = pre @ a \<and> s = a @ CHR ''['' # idxStr @ CHR '']'' # restPath
     \<and> idxStr \<noteq> [] \<and> (\<forall>c\<in>set idxStr. isDigit c) \<and> matchLine [] restPath = None"
proof (induction s arbitrary: pre)
  case Nil
  then show ?case by simp
next
  case (Cons c cs)
  show ?case
  proof (cases "matchLine (pre @ [c]) cs")
    case (Some m)
    with Cons.prems have "matchLine (pre @ [c]) cs = Some (objKey, idxStr, restPath)" by simp
    from Cons.IH[OF this] obtain a where
      "objKey = (pre @ [c]) @ a" "cs = a @ CHR ''['' # idxStr @ CHR '']'' # restPath"
      "idxStr \<noteq> []" "\<forall>c\<in>set idxStr. isDigit c" "matchLine [] restPath = None"
      by blast
    then show ?thesis by (intro exI[of _ "c # a"]) simp
  next
    case None
    with Cons.prems have b: "bracketAt (c # cs) = Some (idxStr, restPath)" and k: "objKey = pre"
      by (auto split: option.splits)
    from bracketAt_Some[OF b] have s: "c # cs = CHR ''['' # idxStr @ CHR '']'' # restPath"
      and d: "idxStr \<noteq> []" "\<forall>c\<in>set idxStr. isDigit c" by auto
    from s have "cs = (idxStr @ [CHR '']'']) @ restPath" by simp
    with None have "matchLine [] restPath = None" by (metis matchLine_None_append)
    with k s d show ?thesis by (intro exI[of _ "[]"]) simp
  qed
qed

lemma firstMatch_Some:
  "firstMatch ls = Some m \<Longrightarrow> \<exists>l\<in>set ls. matchLine [] l = Some m"
  by (induction ls) (auto split: option.splits)

lemma findStringSubmatch_Some:
  assumes "findStringSubmatch part = Some (objKey, idxStr, restPath)"
  shows "objKey @ CHR ''['' # idxStr @ CHR '']'' # restPath \<in> set (split part (CHR 0x0A))
       \<and> idxStr \<noteq> [] \<and> (\<forall>c\<in>set idxStr. isDigit c)
       \<and> findStringSubmatch restPath = None"
proof -
  from assms obtain l where l: "l \<in> set (split part (CHR 0x0A))"
      "matchLine [] l = Some (objKey, idxStr, restPath)"
    unfolding findStringSubmatch_def by (auto dest: firstMatch_Some)
  from matchLine_Some[OF l(2)] have m: "l = objKey @ CHR ''['' # idxStr @ CHR '']'' # restPath"
    "idxStr \<noteq> []" "\<forall>c\<in>set idxStr. isDigit c" "matchLine [] restPath = None"
    by auto
  have "CHR 0x0A \<notin> set l" using l(1) by (rule split_no_sep_in)
  then have "CHR 0x0A \<notin> set restPath" using m(1) by auto
  then have "findStringSubmatch restPath = None"
    using m(4) by (simp add: findStringSubmatch_def split_no_sep)
  with l(1) m show ?thesis by simp
qed

end
